theory Spec2Isabelle
  imports Main
begin

section \<open>ZeroFrameJS: a WebSocket client for the ZeroFrame API\<close>

text \<open>
  A shallow embedding of \<^verbatim>\<open>src/index.js\<close> (class \<^verbatim>\<open>ZeroFrame\<close>). The class is
  single-threaded and event driven; every method and every event handler becomes a
  function from the client's state to its new state. What the client does to the outside
  world (HTTP fetch, socket creation, frames handed to the socket, timers, hook and
  callback invocations) is appended, in program order, to a trace kept in the state.

  Conventions of the embedding.
  \<^item> Identifiers (\<^verbatim>\<open>message.id\<close>, \<^verbatim>\<open>message.to\<close>) are numbers, as the JSDoc of
    \<^verbatim>\<open>response\<close> and the wire format say; they are integers here, an absent field is
    \<open>None\<close>. JavaScript numbers are doubles, exact on integers below \<open>2^53\<close>; the counters
    of the client are unbounded integers in the model.
  \<^item> Command parameters and results are arbitrary JSON values (\<open>jsval\<close>).
  \<^item> Options have the types their JSDoc gives them.
  \<^item> Private methods \<^verbatim>\<open>_name\<close> are called \<open>priv_name\<close>; a name that is an Isar keyword
    gets a prime.
  \<^item> \<^verbatim>\<open>JSON.parse\<close> and \<^verbatim>\<open>JSON.stringify\<close> are not modelled: an inbound frame is the
    parsed message, an outbound frame is the message object handed to
    \<^verbatim>\<open>JSON.stringify\<close> at that moment.
  \<^item> Callbacks supplied by the user are opaque: a call is recorded in the trace, and the
    body either returns or throws, which the inbound frame that triggers the call says
    (the class cannot know); the body is assumed not to call back into the client. The
    hooks do what the base class does (they log). The callback that \<^verbatim>\<open>cmdp\<close> creates
    is modelled in full.
  \<^item> \<^verbatim>\<open>this.show\<close> and \<^verbatim>\<open>this.reconnect\<close> are references to the nested objects of the
    one shared \<^verbatim>\<open>ZeroFrame.constructorOptions\<close>; the client's state holds what they
    contain now, and the construction of another client, which writes to them, is an
    event of the session.
  \<^item> Every call of \<^verbatim>\<open>_send\<close> has a message object of its own, as the two callers in the
    class (\<^verbatim>\<open>cmd\<close>, \<^verbatim>\<open>response\<close>) build one per call; so the state holds the content of
    the objects and no object occurs twice in the queue.
  \<^item> An event of a socket reaches the client only from a socket that \<^verbatim>\<open>_getWebsocket\<close> has
    created, so \<^verbatim>\<open>this.websocket\<close> is defined whenever \<^verbatim>\<open>websocketConnected\<close> is true;
    \<^verbatim>\<open>this.websocket.send(JSON.stringify(message))\<close> is the effect \<open>WsSend message\<close>.
\<close>

subsection \<open>JSON values\<close>

datatype jsval =
    JUndefined
  | JNull
  | JBool bool
  | JNum int
  | JStr string
  | JArr "jsval list"
  | JObj "(string \<times> jsval) list"

text \<open>JavaScript truthiness: \<^verbatim>\<open>undefined\<close>, \<^verbatim>\<open>null\<close>, \<^verbatim>\<open>false\<close>, \<^verbatim>\<open>0\<close> and \<^verbatim>\<open>''\<close> are falsy.\<close>

fun truthy :: "jsval \<Rightarrow> bool" where
  "truthy JUndefined = False"
| "truthy JNull = False"
| "truthy (JBool b) = b"
| "truthy (JNum n) = (n \<noteq> 0)"
| "truthy (JStr s) = (s \<noteq> [])"
| "truthy (JArr xs) = True"
| "truthy (JObj kvs) = True"

text \<open>
  Property read \<^verbatim>\<open>v.k\<close> on a value that is neither \<^verbatim>\<open>undefined\<close> nor \<^verbatim>\<open>null\<close>, for
  a key that no prototype defines (the only key read this way is \<^verbatim>\<open>error\<close>): an own
  property of an object, \<^verbatim>\<open>undefined\<close> otherwise.
\<close>

fun js_get :: "jsval \<Rightarrow> string \<Rightarrow> jsval" where
  "js_get (JObj kvs) k = (case map_of kvs k of None \<Rightarrow> JUndefined | Some v \<Rightarrow> v)"
| "js_get v k = JUndefined"

text \<open>\<^verbatim>\<open>typeof v === 'object' && v !== null\<close>\<close>

fun is_object :: "jsval \<Rightarrow> bool" where
  "is_object (JObj kvs) = True"
| "is_object (JArr xs) = True"
| "is_object v = False"

text \<open>Decimal rendering of a number inside a string concatenation.\<close>

fun show_nat :: "nat \<Rightarrow> string" where
  "show_nat n =
     (if n < 10 then [''0123456789'' ! n]
      else show_nat (n div 10) @ [''0123456789'' ! (n mod 10)])"

declare show_nat.simps [simp del]

definition show_int :: "int \<Rightarrow> string" where
  "show_int i = (if i < 0 then CHR ''-'' # show_nat (nat (- i)) else show_nat (nat i))"

fun join_comma :: "string list \<Rightarrow> string" where
  "join_comma [] = []"
| "join_comma [s] = s"
| "join_comma (s # t # ss) = s @ '','' @ join_comma (t # ss)"

text \<open>\<^verbatim>\<open>'' + v\<close>: the string a value contributes to a concatenation.\<close>

fun js_to_string :: "jsval \<Rightarrow> string" where
  "js_to_string JUndefined = ''undefined''"
| "js_to_string JNull = ''null''"
| "js_to_string (JBool b) = (if b then ''true'' else ''false'')"
| "js_to_string (JNum n) = show_int n"
| "js_to_string (JStr s) = s"
| "js_to_string (JArr xs) =
     join_comma (map (\<lambda>x. if x = JUndefined \<or> x = JNull then [] else js_to_string x) xs)"
| "js_to_string (JObj kvs) = ''[object Object]''"

subsection \<open>Options\<close>

text \<open>
  \<^verbatim>\<open>ZeroFrame.constructorOptions\<close> (lines 474-492): one object shared by all clients,
  with four nested objects.
\<close>

record multiuser_options =
  multiuser_masterAddress :: "string option"
  multiuser_masterSeed :: "string option"

record instance_options =
  instance_host :: string
  instance_port :: int
  instance_secure :: bool

record show_options =
  show_log :: bool
  show_error :: bool

record reconnect_options =
  reconnect_attempts :: int
  reconnect_delay :: int

record constructorOptions =
  opt_multiuser :: multiuser_options
  opt_instance :: instance_options
  opt_show :: show_options
  opt_reconnect :: reconnect_options

text \<open>The object literal of lines 474-492: the documented defaults.\<close>

definition documented_defaults :: constructorOptions where
  "documented_defaults =
     \<lparr> opt_multiuser = \<lparr> multiuser_masterAddress = None, multiuser_masterSeed = None \<rparr>,
       opt_instance = \<lparr> instance_host = ''127.0.0.1'', instance_port = 43110,
                        instance_secure = False \<rparr>,
       opt_show = \<lparr> show_log = False, show_error = False \<rparr>,
       opt_reconnect = \<lparr> reconnect_attempts = - 1, reconnect_delay = 5000 \<rparr> \<rparr>"

text \<open>
  The \<^verbatim>\<open>options\<close> argument of the constructor: every group and every property is
  optional (\<open>None\<close>: the property is absent from the argument).
\<close>

record multiuser_arg =
  arg_masterAddress :: "string option option"
  arg_masterSeed :: "string option option"

record instance_arg =
  arg_host :: "string option"
  arg_port :: "int option"
  arg_secure :: "bool option"

record show_arg =
  arg_log :: "bool option"
  arg_error :: "bool option"

record reconnect_arg =
  arg_attempts :: "int option"
  arg_delay :: "int option"

record options_arg =
  arg_multiuser :: "multiuser_arg option"
  arg_instance :: "instance_arg option"
  arg_show :: "show_arg option"
  arg_reconnect :: "reconnect_arg option"

text \<open>The empty object \<^verbatim>\<open>{}\<close>.\<close>

definition empty_options :: options_arg where
  "empty_options =
     \<lparr> arg_multiuser = None, arg_instance = None, arg_show = None, arg_reconnect = None \<rparr>"

text \<open>
  \<^verbatim>\<open>recursiveAssign(dest, source)\<close> of the package \<^verbatim>\<open>recursive-object-assign\<close> (imported
  in line 1, not part of this repository): \<^verbatim>\<open>Object.assign\<close> that descends into nested
  plain objects. It writes every property of \<open>source\<close> into \<open>dest\<close> itself and returns
  \<open>dest\<close>. The model returns the new content of \<open>dest\<close>; \<open>assign\<close> is the write of one
  property.
\<close>

definition assign :: "'a \<Rightarrow> 'a option \<Rightarrow> 'a" where
  "assign old new = (case new of None \<Rightarrow> old | Some v \<Rightarrow> v)"

definition assign_multiuser :: "multiuser_options \<Rightarrow> multiuser_arg option \<Rightarrow> multiuser_options" where
  "assign_multiuser d src =
     (case src of None \<Rightarrow> d
      | Some a \<Rightarrow>
          \<lparr> multiuser_masterAddress = assign (multiuser_masterAddress d) (arg_masterAddress a),
            multiuser_masterSeed = assign (multiuser_masterSeed d) (arg_masterSeed a) \<rparr>)"

definition assign_instance :: "instance_options \<Rightarrow> instance_arg option \<Rightarrow> instance_options" where
  "assign_instance d src =
     (case src of None \<Rightarrow> d
      | Some a \<Rightarrow>
          \<lparr> instance_host = assign (instance_host d) (arg_host a),
            instance_port = assign (instance_port d) (arg_port a),
            instance_secure = assign (instance_secure d) (arg_secure a) \<rparr>)"

definition assign_show :: "show_options \<Rightarrow> show_arg option \<Rightarrow> show_options" where
  "assign_show d src =
     (case src of None \<Rightarrow> d
      | Some a \<Rightarrow>
          \<lparr> show_log = assign (show_log d) (arg_log a),
            show_error = assign (show_error d) (arg_error a) \<rparr>)"

definition assign_reconnect :: "reconnect_options \<Rightarrow> reconnect_arg option \<Rightarrow> reconnect_options" where
  "assign_reconnect d src =
     (case src of None \<Rightarrow> d
      | Some a \<Rightarrow>
          \<lparr> reconnect_attempts = assign (reconnect_attempts d) (arg_attempts a),
            reconnect_delay = assign (reconnect_delay d) (arg_delay a) \<rparr>)"

definition recursiveAssign :: "constructorOptions \<Rightarrow> options_arg \<Rightarrow> constructorOptions" where
  "recursiveAssign dest source =
     \<lparr> opt_multiuser = assign_multiuser (opt_multiuser dest) (arg_multiuser source),
       opt_instance = assign_instance (opt_instance dest) (arg_instance source),
       opt_show = assign_show (opt_show dest) (arg_show source),
       opt_reconnect = assign_reconnect (opt_reconnect dest) (arg_reconnect source) \<rparr>"

subsection \<open>Messages, callbacks, effects\<close>

text \<open>
  A message object. \<open>msg_params\<close> and \<open>msg_result\<close> are \<open>JUndefined\<close> when the property is
  absent; \<open>msg_processed\<close> is \<open>False\<close> when it is absent.
\<close>

record message =
  msg_id :: "int option"
  msg_cmd :: string
  msg_params :: jsval
  msg_to :: "int option"
  msg_result :: jsval
  msg_processed :: bool

text \<open>
  A completion callback: one supplied by the caller of \<^verbatim>\<open>cmd\<close> (identified by a tag), or
  the closure of \<^verbatim>\<open>cmdp\<close> (lines 424-430) over the promise it settles.
\<close>

datatype callback = UserCallback nat | PromiseCallback nat

datatype promise = Pending | Resolved jsval | Rejected jsval

datatype hook_call =
    OnRequest string message
  | OnOpenWebsocket jsval
  | OnErrorWebsocket jsval
  | OnCloseWebsocket jsval

datatype log_arg = LText string | LMessage message

datatype effect =
    Fetch string
  | NewWebSocket string "string option"
  | WsSend message
  | SetTimeout int
  | CallbackInvoked int callback jsval
  | Hook hook_call
  | ConsoleLog "log_arg list"
  | ConsoleError "log_arg list"

datatype js_error = Error string | TypeError string

subsection \<open>The client\<close>

text \<open>
  The fields of \<^verbatim>\<open>this\<close> (lines 28-45, 97-98). \<open>show'\<close> and \<open>reconnect\<close> hold the
  current content of the objects \<^verbatim>\<open>this.show\<close> and \<^verbatim>\<open>this.reconnect\<close> refer to; these are
  the nested objects of the shared \<^verbatim>\<open>ZeroFrame.constructorOptions\<close> (lines 22, 31, 32), so
  every later construction of a client writes to them (event \<open>OtherClient\<close> below). \<open>websocket\<close> counts
  the sockets assigned to \<^verbatim>\<open>this.websocket\<close> so far (\<open>0\<close>: still undefined). \<open>promises\<close>
  are the promises \<^verbatim>\<open>cmdp\<close> has created, \<open>timers\<close> the reconnect timers that are
  scheduled and have not fired, \<open>trace\<close> the effects so far.
\<close>

record zeroframe =
  masterAddress :: "string option"
  masterSeed :: "string option"
  show' :: show_options
  reconnect :: reconnect_options
  site :: jsval
  host :: string
  port :: int
  secure :: bool
  url :: string
  wrapperKey :: "string option"
  websocket :: nat
  websocketConnected :: bool
  waitingCallbacks :: "int \<rightharpoonup> callback"
  waitingMessages :: "message list"
  nextMessageId :: int
  nextAttemptId :: int
  promises :: "promise list"
  timers :: nat
  trace :: "effect list"

text \<open>
  How a handler ends: it returns, or an exception leaves it. Either way the client is in
  the given state afterwards.
\<close>

datatype outcome = Returned zeroframe | Thrown js_error zeroframe

fun state_after :: "outcome \<Rightarrow> zeroframe" where
  "state_after (Returned s) = s"
| "state_after (Thrown e s) = s"

definition emit :: "effect \<Rightarrow> zeroframe \<Rightarrow> zeroframe" where
  "emit e s = s\<lparr> trace := trace s @ [e] \<rparr>"

subsubsection \<open>Logging (lines 318-335)\<close>

definition log :: "zeroframe \<Rightarrow> log_arg list \<Rightarrow> zeroframe" where
  "log s args =
     (if show_log (show' s) then emit (ConsoleLog (LText ''[ZeroFrame]'' # args)) s else s)"

definition error :: "zeroframe \<Rightarrow> log_arg list \<Rightarrow> zeroframe" where
  "error s args =
     (if show_error (show' s) then emit (ConsoleError (LText ''[ZeroFrame]'' # args)) s else s)"

subsubsection \<open>External handlers (lines 267-307), as the base class defines them\<close>

definition onRequest :: "zeroframe \<Rightarrow> string \<Rightarrow> message \<Rightarrow> zeroframe" where
  "onRequest s c m = log (emit (Hook (OnRequest c m)) s) [LText ''Unknown request'', LMessage m]"

definition onOpenWebsocket :: "zeroframe \<Rightarrow> jsval \<Rightarrow> zeroframe" where
  "onOpenWebsocket s event = log (emit (Hook (OnOpenWebsocket event)) s) [LText ''Websocket open'']"

definition onErrorWebsocket :: "zeroframe \<Rightarrow> jsval \<Rightarrow> zeroframe" where
  "onErrorWebsocket s event = error (emit (Hook (OnErrorWebsocket event)) s) [LText ''Websocket error'']"

definition onCloseWebsocket :: "zeroframe \<Rightarrow> jsval \<Rightarrow> zeroframe" where
  "onCloseWebsocket s event = log (emit (Hook (OnCloseWebsocket event)) s) [LText ''Websocket close'']"

subsubsection \<open>Connecting (lines 96-142)\<close>

text \<open>
  \<^verbatim>\<open>_getWrapperKey\<close> up to its first \<^verbatim>\<open>await\<close>: the HTTP request is issued. The rest of
  \<^verbatim>\<open>_connect\<close> runs when the response body has arrived, see \<open>priv_connect_resume\<close>.
\<close>

definition priv_getWrapperKey :: "zeroframe \<Rightarrow> zeroframe" where
  "priv_getWrapperKey s = emit (Fetch (url s)) s"

definition priv_connect :: "zeroframe \<Rightarrow> zeroframe" where
  "priv_connect s = priv_getWrapperKey s"

definition wsUrl :: "zeroframe \<Rightarrow> string" where
  "wsUrl s =
     ''ws'' @ (if secure s then ''s'' else []) @ ''://'' @ host s @ '':'' @ show_int (port s)
       @ ''/Websocket?wrapper_key=''
       @ (case wrapperKey s of None \<Rightarrow> ''undefined'' | Some k \<Rightarrow> k)"

text \<open>
  \<^verbatim>\<open>_getWebsocket\<close>: a new socket is created, with the master address as a cookie when
  \<^verbatim>\<open>this.masterAddress\<close> is truthy, and the four handlers are bound to it.
\<close>

definition priv_getWebsocket :: "zeroframe \<Rightarrow> zeroframe" where
  "priv_getWebsocket s =
     (case masterAddress s of
        None \<Rightarrow> emit (NewWebSocket (wsUrl s) None) s
      | Some a \<Rightarrow>
          if a = [] then emit (NewWebSocket (wsUrl s) None) s
          else emit (NewWebSocket (wsUrl s) (Some (''master_address='' @ a))) s)"

text \<open>\<^verbatim>\<open>this.websocket = await this._getWebsocket()\<close> (lines 98 and 249).\<close>

definition assign_websocket :: "zeroframe \<Rightarrow> zeroframe" where
  "assign_websocket s = (let s1 = priv_getWebsocket s in s1\<lparr> websocket := Suc (websocket s1) \<rparr>)"

text \<open>
  The rest of \<^verbatim>\<open>_connect\<close>. The argument is the group that
  \<^verbatim>\<open>wrapperBody.match(/wrapper_key = "(.*?)"/)\<close> captured, \<open>None\<close> when the body does not
  match: then \<^verbatim>\<open>null[1]\<close> throws and nothing is assigned. \<^verbatim>\<open>init\<close> (lines 85-87) returns
  the client as it is.
\<close>

definition init :: "zeroframe \<Rightarrow> zeroframe" where
  "init s = s"

definition priv_connect_resume :: "zeroframe \<Rightarrow> string option \<Rightarrow> js_error + zeroframe" where
  "priv_connect_resume s captured =
     (case captured of
        None \<Rightarrow> Inl (TypeError ''Cannot read properties of null'')
      | Some key \<Rightarrow> Inr (init (assign_websocket (s\<lparr> wrapperKey := Some key \<rparr>))))"

subsubsection \<open>Sending (lines 375-448)\<close>

text \<open>\<^verbatim>\<open>!message.id\<close>: the identifier is absent or \<open>0\<close>.\<close>

definition lacks_id :: "message \<Rightarrow> bool" where
  "lacks_id m = (case msg_id m of None \<Rightarrow> True | Some i \<Rightarrow> i = 0)"

text \<open>
  \<^verbatim>\<open>_send\<close>. The message object is pushed to the queue by reference; the queue of the
  model holds its content. After the first statement \<^verbatim>\<open>message.id\<close> is a non-zero number
  (\<open>nextMessageId\<close> starts at 1 and only grows), so the last statement always finds a key.
\<close>

definition priv_send :: "zeroframe \<Rightarrow> message \<Rightarrow> callback option \<Rightarrow> zeroframe" where
  "priv_send s message cb =
     (let (m, s1) =
            (if lacks_id message
             then (message\<lparr> msg_id := Some (nextMessageId s) \<rparr>,
                   s\<lparr> nextMessageId := nextMessageId s + 1 \<rparr>)
             else (message, s));
          s2 = (if websocketConnected s1 then emit (WsSend m) s1
                else s1\<lparr> waitingMessages := waitingMessages s1 @ [m] \<rparr>)
      in case (cb, msg_id m) of
           (Some c, Some k) \<Rightarrow> s2\<lparr> waitingCallbacks := (waitingCallbacks s2)(k \<mapsto> c) \<rparr>
         | _ \<Rightarrow> s2)"

text \<open>A default parameter \<^verbatim>\<open>params = {}\<close>: \<^verbatim>\<open>undefined\<close> becomes the empty object.\<close>

definition default_params :: "jsval \<Rightarrow> jsval" where
  "default_params params = (if params = JUndefined then JObj [] else params)"

definition cmd :: "zeroframe \<Rightarrow> string \<Rightarrow> jsval \<Rightarrow> callback option \<Rightarrow> zeroframe" where
  "cmd s c params cb =
     priv_send s
       \<lparr> msg_id = None, msg_cmd = c, msg_params = default_params params, msg_to = None,
         msg_result = JUndefined, msg_processed = False \<rparr>
       cb"

text \<open>
  \<^verbatim>\<open>cmdp\<close>: the executor of the new promise runs at once and calls \<^verbatim>\<open>cmd\<close> with the
  closure of lines 424-430. The result is the new state and the promise returned.
\<close>

definition cmdp :: "zeroframe \<Rightarrow> string \<Rightarrow> jsval \<Rightarrow> zeroframe \<times> nat" where
  "cmdp s c params =
     (let p = length (promises s);
          s1 = s\<lparr> promises := promises s @ [Pending] \<rparr>
      in (cmd s1 c (default_params params) (Some (PromiseCallback p)), p))"

definition response :: "zeroframe \<Rightarrow> int option \<Rightarrow> jsval \<Rightarrow> zeroframe" where
  "response s to result =
     priv_send s
       \<lparr> msg_id = None, msg_cmd = ''response'', msg_params = JUndefined, msg_to = to,
         msg_result = result, msg_processed = False \<rparr>
       None"

text \<open>
  The function the \<^verbatim>\<open>get\<close> trap of \<^verbatim>\<open>this.proxy\<close> returns for the property \<open>name\<close>
  (lines 62-73), applied to the argument list.
\<close>

definition proxy :: "zeroframe \<Rightarrow> string \<Rightarrow> jsval list \<Rightarrow> zeroframe \<times> nat" where
  "proxy target name arguments =
     (if length arguments = 0 then cmdp target name JUndefined
      else if length arguments = 1 \<and> is_object (hd arguments) then cmdp target name (hd arguments)
      else cmdp target name (JArr arguments))"

subsubsection \<open>Completion callbacks\<close>

text \<open>
  \<^verbatim>\<open>resolve\<close> and \<^verbatim>\<open>reject\<close> of a promise: the first call settles it, later calls do
  nothing.
\<close>

definition settle :: "nat \<Rightarrow> promise \<Rightarrow> zeroframe \<Rightarrow> zeroframe" where
  "settle p v s =
     (if p < length (promises s) \<and> promises s ! p = Pending
      then s\<lparr> promises := (promises s)[p := v] \<rparr> else s)"

text \<open>
  Calling a callback with the result of a response. What the body of a user's callback
  does is not in the class: \<open>thrown\<close> is the exception it throws in this call, \<open>None\<close> if
  it returns. The closure of \<^verbatim>\<open>cmdp\<close> (lines 424-430) calls \<^verbatim>\<open>reject\<close> or \<^verbatim>\<open>resolve\<close>,
  which do not throw.
\<close>

fun call_callback :: "callback \<Rightarrow> jsval \<Rightarrow> js_error option \<Rightarrow> zeroframe \<Rightarrow> outcome" where
  "call_callback (UserCallback t) res thrown s =
     (case thrown of None \<Rightarrow> Returned s | Some e \<Rightarrow> Thrown e s)"
| "call_callback (PromiseCallback p) res thrown s =
     Returned
       (if truthy res \<and> truthy (js_get res ''error'')
        then settle p (Rejected (js_get res ''error'')) s
        else settle p (Resolved res) s)"

subsubsection \<open>Internal handlers (lines 161-251)\<close>

text \<open>
  \<^verbatim>\<open>_onRequest\<close>. In the response branch the callback is called first (line 167) and the
  entry is deleted after it (line 168): when the callback throws, the exception leaves the
  handler and the entry is still there.
\<close>

definition priv_onRequest :: "zeroframe \<Rightarrow> message \<Rightarrow> js_error option \<Rightarrow> outcome" where
  "priv_onRequest s message thrown =
     (let c = msg_cmd message in
      if c = ''response'' then
        (case msg_to message of
           None \<Rightarrow> Returned s
         | Some k \<Rightarrow>
             (case waitingCallbacks s k of
                None \<Rightarrow> Returned s
              | Some cb \<Rightarrow>
                  (case call_callback cb (msg_result message) thrown
                          (emit (CallbackInvoked k cb (msg_result message)) s) of
                     Thrown e s1 \<Rightarrow> Thrown e s1
                   | Returned s1 \<Rightarrow>
                       Returned (s1\<lparr> waitingCallbacks := (waitingCallbacks s1)(k := None) \<rparr>))))
      else if c = ''ping'' then Returned (response s (msg_id message) (JStr ''pong''))
      else Returned (onRequest s c message))"

text \<open>
  The \<^verbatim>\<open>forEach\<close> of lines 194-199 over the queue: the result is the queue with the
  flags set and the state with the frames sent.
\<close>

fun send_waiting :: "message list \<Rightarrow> zeroframe \<Rightarrow> message list \<times> zeroframe" where
  "send_waiting [] s = ([], s)"
| "send_waiting (m # ms) s =
     (if \<not> msg_processed m
      then (let (ms', s') = send_waiting ms (emit (WsSend m) s)
            in (m\<lparr> msg_processed := True \<rparr> # ms', s'))
      else (let (ms', s') = send_waiting ms s in (m # ms', s')))"

definition priv_onOpenWebsocket :: "zeroframe \<Rightarrow> jsval \<Rightarrow> zeroframe" where
  "priv_onOpenWebsocket s event =
     (let s1 = s\<lparr> websocketConnected := True \<rparr>;
          (ms, s2) = send_waiting (waitingMessages s1) s1
      in onOpenWebsocket (s2\<lparr> waitingMessages := ms \<rparr>) event)"

definition priv_onErrorWebsocket :: "zeroframe \<Rightarrow> jsval \<Rightarrow> zeroframe" where
  "priv_onErrorWebsocket s event = onErrorWebsocket s event"

definition priv_onCloseWebsocket :: "zeroframe \<Rightarrow> jsval \<Rightarrow> zeroframe" where
  "priv_onCloseWebsocket s event =
     (let s1 = s\<lparr> websocketConnected := False \<rparr>;
          s2 = onCloseWebsocket s1 event
      in if reconnect_attempts (reconnect s2) = 0 then s2
         else if reconnect_attempts (reconnect s2) \<noteq> - 1
                 \<and> nextAttemptId s2 > reconnect_attempts (reconnect s2) then s2
         else (emit (SetTimeout (reconnect_delay (reconnect s2))) s2)\<lparr> timers := Suc (timers s2) \<rparr>)"

text \<open>The function given to \<^verbatim>\<open>setTimeout\<close> (lines 248-250), when the timer fires.\<close>

definition reconnect_timeout :: "zeroframe \<Rightarrow> zeroframe" where
  "reconnect_timeout s = assign_websocket s"

subsubsection \<open>The constructor (lines 21-78)\<close>

text \<open>
  The first argument is the content of the shared \<^verbatim>\<open>ZeroFrame.constructorOptions\<close> when
  \<^verbatim>\<open>new ZeroFrame(site, options)\<close> is evaluated; the first component of the result is its
  content afterwards. \<open>options = None\<close>: the argument is omitted. The second component is
  the error thrown, or the new client after the synchronous part of \<^verbatim>\<open>_connect\<close>.
\<close>

definition constructor :: "constructorOptions \<Rightarrow> jsval \<Rightarrow> options_arg option
    \<Rightarrow> constructorOptions \<times> (js_error + zeroframe)" where
  "constructor shared site_arg options_in =
     (let options = recursiveAssign shared (case options_in of None \<Rightarrow> empty_options | Some a \<Rightarrow> a)
      in (options,
          if \<not> truthy site_arg then Inl (Error ''Site address is not specified'')
          else Inr (priv_connect
            \<lparr> masterAddress = multiuser_masterAddress (opt_multiuser options),
              masterSeed = multiuser_masterSeed (opt_multiuser options),
              show' = opt_show options,
              reconnect = opt_reconnect options,
              site = site_arg,
              host = instance_host (opt_instance options),
              port = instance_port (opt_instance options),
              secure = instance_secure (opt_instance options),
              url = ''http'' @ (if instance_secure (opt_instance options) then ''s'' else [])
                    @ ''://'' @ instance_host (opt_instance options) @ '':''
                    @ show_int (instance_port (opt_instance options)) @ ''/''
                    @ js_to_string site_arg,
              wrapperKey = None,
              websocket = 0,
              websocketConnected = False,
              waitingCallbacks = Map.empty,
              waitingMessages = [],
              nextMessageId = 1,
              nextAttemptId = 1,
              promises = [],
              timers = 0,
              trace = [] \<rparr>)))"

subsection \<open>Runs of a session\<close>

text \<open>
  What can happen to a client after its construction: a call of its public interface, an
  event delivered by the runtime (the HTTP response, an event of a socket that
  \<^verbatim>\<open>_getWebsocket\<close> created, a reconnect timer), or the construction of another client
  somewhere in the program. A timer fires only if one is scheduled; a failed \<^verbatim>\<open>_connect\<close>
  leaves the client as it is. An inbound frame comes with what the user's callback, if
  the frame makes the client call one, throws.

  \<open>OtherClient site options\<close> is the evaluation of \<^verbatim>\<open>new ZeroFrame(site, options)\<close>: its
  line 22 merges \<open>options\<close> into the shared object, hence into the objects that
  \<^verbatim>\<open>this.show\<close> and \<^verbatim>\<open>this.reconnect\<close> of this client refer to (whether the construction
  then throws or not). Nothing else of this client is touched.
\<close>

datatype event =
    Cmd string jsval "nat option"
  | Cmdp string jsval
  | Response "int option" jsval
  | Proxy string "jsval list"
  | FetchDone "string option"
  | WsMessage message "js_error option"
  | WsOpen jsval
  | WsError jsval
  | WsClose jsval
  | TimerFired
  | OtherClient jsval "options_arg option"

fun step :: "zeroframe \<Rightarrow> event \<Rightarrow> zeroframe" where
  "step s (Cmd c params cb) = cmd s c params (map_option UserCallback cb)"
| "step s (Cmdp c params) = fst (cmdp s c params)"
| "step s (Response to result) = response s to result"
| "step s (Proxy name arguments) = fst (proxy s name arguments)"
| "step s (FetchDone captured) =
     (case priv_connect_resume s captured of Inl e \<Rightarrow> s | Inr s' \<Rightarrow> s')"
| "step s (WsMessage message thrown) = state_after (priv_onRequest s message thrown)"
| "step s (WsOpen ev) = priv_onOpenWebsocket s ev"
| "step s (WsError ev) = priv_onErrorWebsocket s ev"
| "step s (WsClose ev) = priv_onCloseWebsocket s ev"
| "step s TimerFired =
     (if timers s = 0 then s else reconnect_timeout (s\<lparr> timers := timers s - 1 \<rparr>))"
| "step s (OtherClient site_arg options_in) =
     s\<lparr> show' := assign_show (show' s)
                (arg_show (case options_in of None \<Rightarrow> empty_options | Some a \<Rightarrow> a)),
        reconnect := assign_reconnect (reconnect s)
                (arg_reconnect (case options_in of None \<Rightarrow> empty_options | Some a \<Rightarrow> a)) \<rparr>"

definition run :: "zeroframe \<Rightarrow> event list \<Rightarrow> zeroframe" where
  "run s es = foldl step s es"

text \<open>Projections of a trace.\<close>

fun sent_frames :: "effect list \<Rightarrow> message list" where
  "sent_frames [] = []"
| "sent_frames (WsSend m # es) = m # sent_frames es"
| "sent_frames (e # es) = sent_frames es"

fun invocations :: "int \<Rightarrow> effect list \<Rightarrow> (callback \<times> jsval) list" where
  "invocations k [] = []"
| "invocations k (CallbackInvoked k' cb r # es) =
     (if k' = k then (cb, r) # invocations k es else invocations k es)"
| "invocations k (e # es) = invocations k es"

fun timeouts_set :: "effect list \<Rightarrow> nat" where
  "timeouts_set [] = 0"
| "timeouts_set (SetTimeout d # es) = Suc (timeouts_set es)"
| "timeouts_set (e # es) = timeouts_set es"

fun sockets_created :: "effect list \<Rightarrow> nat" where
  "sockets_created [] = 0"
| "sockets_created (NewWebSocket u c # es) = Suc (sockets_created es)"
| "sockets_created (e # es) = sockets_created es"

fun hooks_called :: "effect list \<Rightarrow> hook_call list" where
  "hooks_called [] = []"
| "hooks_called (Hook h # es) = h # hooks_called es"
| "hooks_called (e # es) = hooks_called es"

text \<open>
  What a sequence of messages looks like after \<^verbatim>\<open>_send\<close> has numbered it, the counter
  being \<open>n\<close> before the first: every message that lacks an identifier gets the next one.
\<close>

fun assign_ids :: "int \<Rightarrow> message list \<Rightarrow> message list" where
  "assign_ids n [] = []"
| "assign_ids n (m # ms) =
     (if lacks_id m then m\<lparr> msg_id := Some n \<rparr> # assign_ids (n + 1) ms
      else m # assign_ids n ms)"

text \<open>A sequence of calls \<^verbatim>\<open>_send(message, cb)\<close>.\<close>

definition send_all :: "zeroframe \<Rightarrow> (message \<times> callback option) list \<Rightarrow> zeroframe" where
  "send_all s calls = foldl (\<lambda>s (m, cb). priv_send s m cb) s calls"

text \<open>
  The events of the runtime other than an inbound frame: none of them is a call of the
  client's interface.
\<close>

fun socket_event :: "event \<Rightarrow> bool" where
  "socket_event (WsOpen ev) = True"
| "socket_event (WsError ev) = True"
| "socket_event (WsClose ev) = True"
| "socket_event TimerFired = True"
| "socket_event (FetchDone c) = True"
| "socket_event e = False"

text \<open>Every entry of the queue has its \<^verbatim>\<open>processed\<close> flag set.\<close>

definition queue_done :: "zeroframe \<Rightarrow> bool" where
  "queue_done s = list_all msg_processed (waitingMessages s)"

text \<open>
  A concrete client, \<^verbatim>\<open>new ZeroFrame('1HeLLo')\<close> on the documented defaults, and a concrete
  message, for the instances below.
\<close>

definition example_client :: zeroframe where
  "example_client = projr (snd (constructor documented_defaults (JStr ''1HeLLo'') None))"

definition example_cmd :: "string \<Rightarrow> message" where
  "example_cmd c = \<lparr> msg_id = None, msg_cmd = c, msg_params = JObj [], msg_to = None,
         msg_result = JUndefined, msg_processed = False \<rparr>"

text \<open>
  The messages that have left \<^verbatim>\<open>_send\<close> so far, in the order they were created: the frames
  handed to a socket, then the entries of the queue that are still unprocessed.
\<close>

definition handed_out :: "zeroframe \<Rightarrow> message list" where
  "handed_out s = sent_frames (trace s) @ filter (\<lambda>m. \<not> msg_processed m) (waitingMessages s)"

text \<open>
  Invariant of a session: the messages handed out carry the identifiers 1, 2, ... up to the
  counter, in this order, and while the socket is open nothing in the queue is unprocessed.
\<close>

definition numbered :: "zeroframe \<Rightarrow> bool" where
  "numbered s \<longleftrightarrow>
     map msg_id (handed_out s) = map Some [1..nextMessageId s - 1]
     \<and> 1 \<le> nextMessageId s
     \<and> (websocketConnected s \<longrightarrow> queue_done s)"

text \<open>The call of a callback throws: it is a user's callback whose body throws.\<close>

fun throws :: "callback \<Rightarrow> js_error option \<Rightarrow> bool" where
  "throws (UserCallback t) (Some e) = True"
| "throws cb thrown = False"

text \<open>
  Invariant of a session, about the identifier \<open>k\<close> in the table of callbacks: at most one
  callback call has happened under \<open>k\<close>; if a callback waits under \<open>k\<close>, then \<open>k\<close> is below
  the counter and no call has happened under it; no call has happened under an identifier
  that the counter has not reached.
\<close>

definition called_once :: "int \<Rightarrow> zeroframe \<Rightarrow> bool" where
  "called_once k s \<longleftrightarrow>
     length (invocations k (trace s)) \<le> 1
     \<and> (waitingCallbacks s k \<noteq> None \<longrightarrow> k < nextMessageId s \<and> invocations k (trace s) = [])
     \<and> (invocations k (trace s) \<noteq> [] \<longrightarrow> k < nextMessageId s)"

text \<open>
  The event is an inbound response frame for the identifier \<open>k\<close>, a callback waits under
  \<open>k\<close> in the state \<open>s\<close>, and its call throws.
\<close>

fun throws_at :: "int \<Rightarrow> zeroframe \<Rightarrow> event \<Rightarrow> bool" where
  "throws_at k s (WsMessage m thrown) =
     (msg_cmd m = ''response'' \<and> msg_to m = Some k
      \<and> (case waitingCallbacks s k of None \<Rightarrow> False | Some cb \<Rightarrow> throws cb thrown))"
| "throws_at k s e = False"

text \<open>No callback call under the identifier \<open>k\<close> throws during the run of \<open>es\<close> from \<open>s\<close>.\<close>

fun never_throws :: "int \<Rightarrow> zeroframe \<Rightarrow> event list \<Rightarrow> bool" where
  "never_throws k s [] = True"
| "never_throws k s (e # es) = (\<not> throws_at k s e \<and> never_throws k (step s e) es)"

text \<open>An inbound frame \<^verbatim>\<open>{cmd: "response", to: k, result: r}\<close>.\<close>

definition response_frame :: "int \<Rightarrow> jsval \<Rightarrow> message" where
  "response_frame k r =
     \<lparr> msg_id = None, msg_cmd = ''response'', msg_params = JUndefined, msg_to = Some k,
       msg_result = r, msg_processed = False \<rparr>"

text \<open>The message that \<^verbatim>\<open>response(to, 'pong')\<close> builds (lines 443-447).\<close>

definition pong :: "int option \<Rightarrow> message" where
  "pong to =
     \<lparr> msg_id = None, msg_cmd = ''response'', msg_params = JUndefined, msg_to = to,
       msg_result = JStr ''pong'', msg_processed = False \<rparr>"


text \<open>
  A client constructed on the documented defaults with \<^verbatim>\<open>{reconnect: {attempts: 1}}\<close>, and
  the options \<^verbatim>\<open>{instance: {port: 1234}}\<close>.
\<close>

definition capped_options :: options_arg where
  "capped_options =
     \<lparr> arg_multiuser = None, arg_instance = None, arg_show = None,
       arg_reconnect = Some \<lparr> arg_attempts = Some 1, arg_delay = None \<rparr> \<rparr>"

definition capped_client :: zeroframe where
  "capped_client =
     projr (snd (constructor documented_defaults (JStr ''1HeLLo'') (Some capped_options)))"

definition port_options :: options_arg where
  "port_options =
     \<lparr> arg_multiuser = None,
       arg_instance = Some \<lparr> arg_host = None, arg_port = Some 1234, arg_secure = None \<rparr>,
       arg_show = None, arg_reconnect = None \<rparr>"




text \<open>
  Two constructions in a row on the shared object: \<^verbatim>\<open>new ZeroFrame('1HeLLo', {instance:
  {port: 1234}})\<close>, then \<^verbatim>\<open>new ZeroFrame('1Other')\<close>.
\<close>

definition shared_after_first :: constructorOptions where
  "shared_after_first =
     fst (constructor documented_defaults (JStr ''1HeLLo'') (Some port_options))"

definition second_client :: zeroframe where
  "second_client = projr (snd (constructor shared_after_first (JStr ''1Other'') None))"

text \<open>
  Invariant of a session, about the callbacks of promises: every waiting callback sits
  under an identifier below the counter; a waiting callback of \<^verbatim>\<open>cmdp\<close> belongs to a
  promise that exists, and no two entries belong to the same promise.
\<close>

definition table_ok :: "zeroframe \<Rightarrow> bool" where
  "table_ok s \<longleftrightarrow>
     (\<forall>k cb. waitingCallbacks s k = Some cb \<longrightarrow>
        k < nextMessageId s
        \<and> (\<forall>q. cb = PromiseCallback q \<longrightarrow>
              q < length (promises s)
              \<and> (\<forall>k'. waitingCallbacks s k' = Some (PromiseCallback q) \<longrightarrow> k' = k)))"

text \<open>The promise \<open>p\<close> is pending and its callback waits under the identifier \<open>k\<close>.\<close>

definition tracked :: "int \<Rightarrow> nat \<Rightarrow> zeroframe \<Rightarrow> bool" where
  "tracked k p s \<longleftrightarrow>
     waitingCallbacks s k = Some (PromiseCallback p) \<and> p < length (promises s)
     \<and> promises s ! p = Pending"

text \<open>An inbound response frame for the identifier \<open>k\<close>.\<close>

fun answers :: "int \<Rightarrow> event \<Rightarrow> bool" where
  "answers k (WsMessage m thrown) = (msg_cmd m = ''response'' \<and> msg_to m = Some k)"
| "answers k e = False"

text \<open>
  An object has an own property \<open>k\<close>: the wording "a value carrying an error field" of
  the specification, for \<open>k = ''error''\<close>.
\<close>

fun has_field :: "jsval \<Rightarrow> string \<Rightarrow> bool" where
  "has_field (JObj kvs) k = (map_of kvs k \<noteq> None)"
| "has_field v k = False"

section \<open>Properties\<close>

subsection \<open>What each method changes\<close>

lemma sent_frames_append: "sent_frames (xs @ ys) = sent_frames xs @ sent_frames ys"
  by (induction xs rule: sent_frames.induct) auto

lemma sent_frames_WsSend: "sent_frames (map WsSend ms) = ms"
  by (induction ms) auto

lemma invocations_append: "invocations k (xs @ ys) = invocations k xs @ invocations k ys"
  by (induction k xs rule: invocations.induct) auto

lemma timeouts_set_append: "timeouts_set (xs @ ys) = timeouts_set xs + timeouts_set ys"
  by (induction xs rule: timeouts_set.induct) auto

lemma sockets_created_append: "sockets_created (xs @ ys) = sockets_created xs + sockets_created ys"
  by (induction xs rule: sockets_created.induct) auto

lemma hooks_called_append: "hooks_called (xs @ ys) = hooks_called xs @ hooks_called ys"
  by (induction xs rule: hooks_called.induct) auto

lemmas trace_append =
  sent_frames_append invocations_append timeouts_set_append sockets_created_append
  hooks_called_append

lemma invocations_WsSend: "invocations k (map WsSend ms) = []"
  by (induction ms) auto

lemma timeouts_set_WsSend: "timeouts_set (map WsSend ms) = 0"
  by (induction ms) auto

lemma sockets_created_WsSend: "sockets_created (map WsSend ms) = 0"
  by (induction ms) auto

lemma hooks_called_WsSend: "hooks_called (map WsSend ms) = []"
  by (induction ms) auto

lemma emit_fields [simp]:
  "nextMessageId (emit e s) = nextMessageId s"
  "nextAttemptId (emit e s) = nextAttemptId s"
  "waitingMessages (emit e s) = waitingMessages s"
  "websocketConnected (emit e s) = websocketConnected s"
  "waitingCallbacks (emit e s) = waitingCallbacks s"
  "promises (emit e s) = promises s"
  "reconnect (emit e s) = reconnect s"
  "show' (emit e s) = show' s"
  "timers (emit e s) = timers s"
  "trace (emit e s) = trace s @ [e]"
  by (simp_all add: emit_def)

lemma log_fields [simp]:
  "nextMessageId (log s args) = nextMessageId s"
  "nextAttemptId (log s args) = nextAttemptId s"
  "waitingMessages (log s args) = waitingMessages s"
  "websocketConnected (log s args) = websocketConnected s"
  "waitingCallbacks (log s args) = waitingCallbacks s"
  "promises (log s args) = promises s"
  "reconnect (log s args) = reconnect s"
  "show' (log s args) = show' s"
  "timers (log s args) = timers s"
  "sent_frames (trace (log s args)) = sent_frames (trace s)"
  "invocations k (trace (log s args)) = invocations k (trace s)"
  "timeouts_set (trace (log s args)) = timeouts_set (trace s)"
  "sockets_created (trace (log s args)) = sockets_created (trace s)"
  "hooks_called (trace (log s args)) = hooks_called (trace s)"
  by (simp_all add: log_def trace_append)

lemma error_fields [simp]:
  "nextMessageId (error s args) = nextMessageId s"
  "nextAttemptId (error s args) = nextAttemptId s"
  "waitingMessages (error s args) = waitingMessages s"
  "websocketConnected (error s args) = websocketConnected s"
  "waitingCallbacks (error s args) = waitingCallbacks s"
  "promises (error s args) = promises s"
  "reconnect (error s args) = reconnect s"
  "show' (error s args) = show' s"
  "timers (error s args) = timers s"
  "sent_frames (trace (error s args)) = sent_frames (trace s)"
  "invocations k (trace (error s args)) = invocations k (trace s)"
  "timeouts_set (trace (error s args)) = timeouts_set (trace s)"
  "sockets_created (trace (error s args)) = sockets_created (trace s)"
  "hooks_called (trace (error s args)) = hooks_called (trace s)"
  by (simp_all add: error_def trace_append)

lemma onRequest_fields [simp]:
  "nextMessageId (onRequest s c m) = nextMessageId s"
  "nextAttemptId (onRequest s c m) = nextAttemptId s"
  "waitingMessages (onRequest s c m) = waitingMessages s"
  "websocketConnected (onRequest s c m) = websocketConnected s"
  "waitingCallbacks (onRequest s c m) = waitingCallbacks s"
  "promises (onRequest s c m) = promises s"
  "reconnect (onRequest s c m) = reconnect s"
  "show' (onRequest s c m) = show' s"
  "timers (onRequest s c m) = timers s"
  "sent_frames (trace (onRequest s c m)) = sent_frames (trace s)"
  "invocations k (trace (onRequest s c m)) = invocations k (trace s)"
  "timeouts_set (trace (onRequest s c m)) = timeouts_set (trace s)"
  "sockets_created (trace (onRequest s c m)) = sockets_created (trace s)"
  "hooks_called (trace (onRequest s c m)) = hooks_called (trace s) @ [OnRequest c m]"
  by (simp_all add: onRequest_def trace_append)

lemma onOpenWebsocket_fields [simp]:
  "nextMessageId (onOpenWebsocket s ev) = nextMessageId s"
  "nextAttemptId (onOpenWebsocket s ev) = nextAttemptId s"
  "waitingMessages (onOpenWebsocket s ev) = waitingMessages s"
  "websocketConnected (onOpenWebsocket s ev) = websocketConnected s"
  "waitingCallbacks (onOpenWebsocket s ev) = waitingCallbacks s"
  "promises (onOpenWebsocket s ev) = promises s"
  "reconnect (onOpenWebsocket s ev) = reconnect s"
  "show' (onOpenWebsocket s ev) = show' s"
  "timers (onOpenWebsocket s ev) = timers s"
  "sent_frames (trace (onOpenWebsocket s ev)) = sent_frames (trace s)"
  "invocations k (trace (onOpenWebsocket s ev)) = invocations k (trace s)"
  "timeouts_set (trace (onOpenWebsocket s ev)) = timeouts_set (trace s)"
  "sockets_created (trace (onOpenWebsocket s ev)) = sockets_created (trace s)"
  "hooks_called (trace (onOpenWebsocket s ev)) = hooks_called (trace s) @ [OnOpenWebsocket ev]"
  by (simp_all add: onOpenWebsocket_def trace_append)

lemma onErrorWebsocket_fields [simp]:
  "nextMessageId (onErrorWebsocket s ev) = nextMessageId s"
  "nextAttemptId (onErrorWebsocket s ev) = nextAttemptId s"
  "waitingMessages (onErrorWebsocket s ev) = waitingMessages s"
  "websocketConnected (onErrorWebsocket s ev) = websocketConnected s"
  "waitingCallbacks (onErrorWebsocket s ev) = waitingCallbacks s"
  "promises (onErrorWebsocket s ev) = promises s"
  "reconnect (onErrorWebsocket s ev) = reconnect s"
  "show' (onErrorWebsocket s ev) = show' s"
  "timers (onErrorWebsocket s ev) = timers s"
  "sent_frames (trace (onErrorWebsocket s ev)) = sent_frames (trace s)"
  "invocations k (trace (onErrorWebsocket s ev)) = invocations k (trace s)"
  "timeouts_set (trace (onErrorWebsocket s ev)) = timeouts_set (trace s)"
  "sockets_created (trace (onErrorWebsocket s ev)) = sockets_created (trace s)"
  "hooks_called (trace (onErrorWebsocket s ev)) = hooks_called (trace s) @ [OnErrorWebsocket ev]"
  by (simp_all add: onErrorWebsocket_def trace_append)

lemma onCloseWebsocket_fields [simp]:
  "nextMessageId (onCloseWebsocket s ev) = nextMessageId s"
  "nextAttemptId (onCloseWebsocket s ev) = nextAttemptId s"
  "waitingMessages (onCloseWebsocket s ev) = waitingMessages s"
  "websocketConnected (onCloseWebsocket s ev) = websocketConnected s"
  "waitingCallbacks (onCloseWebsocket s ev) = waitingCallbacks s"
  "promises (onCloseWebsocket s ev) = promises s"
  "reconnect (onCloseWebsocket s ev) = reconnect s"
  "show' (onCloseWebsocket s ev) = show' s"
  "timers (onCloseWebsocket s ev) = timers s"
  "sent_frames (trace (onCloseWebsocket s ev)) = sent_frames (trace s)"
  "invocations k (trace (onCloseWebsocket s ev)) = invocations k (trace s)"
  "timeouts_set (trace (onCloseWebsocket s ev)) = timeouts_set (trace s)"
  "sockets_created (trace (onCloseWebsocket s ev)) = sockets_created (trace s)"
  "hooks_called (trace (onCloseWebsocket s ev)) = hooks_called (trace s) @ [OnCloseWebsocket ev]"
  by (simp_all add: onCloseWebsocket_def trace_append)

lemma priv_getWebsocket_fields [simp]:
  "nextMessageId (priv_getWebsocket s) = nextMessageId s"
  "nextAttemptId (priv_getWebsocket s) = nextAttemptId s"
  "waitingMessages (priv_getWebsocket s) = waitingMessages s"
  "websocketConnected (priv_getWebsocket s) = websocketConnected s"
  "waitingCallbacks (priv_getWebsocket s) = waitingCallbacks s"
  "promises (priv_getWebsocket s) = promises s"
  "reconnect (priv_getWebsocket s) = reconnect s"
  "show' (priv_getWebsocket s) = show' s"
  "timers (priv_getWebsocket s) = timers s"
  "sent_frames (trace (priv_getWebsocket s)) = sent_frames (trace s)"
  "invocations k (trace (priv_getWebsocket s)) = invocations k (trace s)"
  "timeouts_set (trace (priv_getWebsocket s)) = timeouts_set (trace s)"
  "sockets_created (trace (priv_getWebsocket s)) = Suc (sockets_created (trace s))"
  "hooks_called (trace (priv_getWebsocket s)) = hooks_called (trace s)"
  by (simp_all add: priv_getWebsocket_def trace_append split: option.splits)

lemma assign_websocket_fields [simp]:
  "nextMessageId (assign_websocket s) = nextMessageId s"
  "nextAttemptId (assign_websocket s) = nextAttemptId s"
  "waitingMessages (assign_websocket s) = waitingMessages s"
  "websocketConnected (assign_websocket s) = websocketConnected s"
  "waitingCallbacks (assign_websocket s) = waitingCallbacks s"
  "promises (assign_websocket s) = promises s"
  "reconnect (assign_websocket s) = reconnect s"
  "show' (assign_websocket s) = show' s"
  "timers (assign_websocket s) = timers s"
  "sent_frames (trace (assign_websocket s)) = sent_frames (trace s)"
  "invocations k (trace (assign_websocket s)) = invocations k (trace s)"
  "timeouts_set (trace (assign_websocket s)) = timeouts_set (trace s)"
  "sockets_created (trace (assign_websocket s)) = Suc (sockets_created (trace s))"
  "hooks_called (trace (assign_websocket s)) = hooks_called (trace s)"
  by (simp_all add: assign_websocket_def Let_def)

lemma reconnect_timeout_fields [simp]:
  "nextMessageId (reconnect_timeout s) = nextMessageId s"
  "nextAttemptId (reconnect_timeout s) = nextAttemptId s"
  "waitingMessages (reconnect_timeout s) = waitingMessages s"
  "websocketConnected (reconnect_timeout s) = websocketConnected s"
  "waitingCallbacks (reconnect_timeout s) = waitingCallbacks s"
  "promises (reconnect_timeout s) = promises s"
  "reconnect (reconnect_timeout s) = reconnect s"
  "show' (reconnect_timeout s) = show' s"
  "timers (reconnect_timeout s) = timers s"
  "sent_frames (trace (reconnect_timeout s)) = sent_frames (trace s)"
  "invocations k (trace (reconnect_timeout s)) = invocations k (trace s)"
  "timeouts_set (trace (reconnect_timeout s)) = timeouts_set (trace s)"
  "sockets_created (trace (reconnect_timeout s)) = Suc (sockets_created (trace s))"
  "hooks_called (trace (reconnect_timeout s)) = hooks_called (trace s)"
  by (simp_all add: reconnect_timeout_def)

lemma settle_fields [simp]:
  "nextMessageId (settle p v s) = nextMessageId s"
  "nextAttemptId (settle p v s) = nextAttemptId s"
  "waitingMessages (settle p v s) = waitingMessages s"
  "websocketConnected (settle p v s) = websocketConnected s"
  "waitingCallbacks (settle p v s) = waitingCallbacks s"
  "reconnect (settle p v s) = reconnect s"
  "show' (settle p v s) = show' s"
  "timers (settle p v s) = timers s"
  "sent_frames (trace (settle p v s)) = sent_frames (trace s)"
  "invocations k (trace (settle p v s)) = invocations k (trace s)"
  "timeouts_set (trace (settle p v s)) = timeouts_set (trace s)"
  "sockets_created (trace (settle p v s)) = sockets_created (trace s)"
  "trace (settle p v s) = trace s"
  "length (promises (settle p v s)) = length (promises s)"
  by (simp_all add: settle_def)

lemma call_callback_fields [simp]:
  "nextMessageId (state_after (call_callback cb r t s)) = nextMessageId s"
  "nextAttemptId (state_after (call_callback cb r t s)) = nextAttemptId s"
  "waitingMessages (state_after (call_callback cb r t s)) = waitingMessages s"
  "websocketConnected (state_after (call_callback cb r t s)) = websocketConnected s"
  "waitingCallbacks (state_after (call_callback cb r t s)) = waitingCallbacks s"
  "reconnect (state_after (call_callback cb r t s)) = reconnect s"
  "show' (state_after (call_callback cb r t s)) = show' s"
  "timers (state_after (call_callback cb r t s)) = timers s"
  "trace (state_after (call_callback cb r t s)) = trace s"
  "length (promises (state_after (call_callback cb r t s))) = length (promises s)"
  by (cases cb; cases t; simp)+

lemma call_callback_outcome:
  "call_callback cb r t s =
     (if throws cb t then Thrown (the t) s else Returned (state_after (call_callback cb r t s)))"
  by (cases cb; cases t; simp)

lemma priv_send_fields [simp]:
  "nextMessageId (priv_send s m cb) = (if lacks_id m then nextMessageId s + 1 else nextMessageId s)"
  "nextAttemptId (priv_send s m cb) = nextAttemptId s"
  "waitingMessages (priv_send s m cb) =
     (if websocketConnected s then waitingMessages s
      else waitingMessages s @ [if lacks_id m then m\<lparr> msg_id := Some (nextMessageId s) \<rparr> else m])"
  "websocketConnected (priv_send s m cb) = websocketConnected s"
  "waitingCallbacks (priv_send s m cb) =
     (case (cb, if lacks_id m then Some (nextMessageId s) else msg_id m) of
        (Some c, Some k) \<Rightarrow> (waitingCallbacks s)(k \<mapsto> c)
      | _ \<Rightarrow> waitingCallbacks s)"
  "promises (priv_send s m cb) = promises s"
  "reconnect (priv_send s m cb) = reconnect s"
  "show' (priv_send s m cb) = show' s"
  "timers (priv_send s m cb) = timers s"
  "trace (priv_send s m cb) =
     (if websocketConnected s
      then trace s @ [WsSend (if lacks_id m then m\<lparr> msg_id := Some (nextMessageId s) \<rparr> else m)]
      else trace s)"
  by (auto simp: priv_send_def Let_def split: option.splits)

lemma priv_send_trace [simp]:
  "sent_frames (trace (priv_send s m cb)) =
     (if websocketConnected s
      then sent_frames (trace s) @ [if lacks_id m then m\<lparr> msg_id := Some (nextMessageId s) \<rparr> else m]
      else sent_frames (trace s))"
  "invocations k (trace (priv_send s m cb)) = invocations k (trace s)"
  "timeouts_set (trace (priv_send s m cb)) = timeouts_set (trace s)"
  "sockets_created (trace (priv_send s m cb)) = sockets_created (trace s)"
  "hooks_called (trace (priv_send s m cb)) = hooks_called (trace s)"
  by (simp_all add: trace_append)

declare priv_send_fields(10) [simp del]
subsection \<open>Identifiers\<close>

lemma upto_snoc: "1 \<le> (n::int) \<Longrightarrow> [1..n] = [1..n - 1] @ [n]"
  by (rule upto_rec2) simp

lemma numbered_priv_send:
  assumes "numbered s" "lacks_id m" "\<not> msg_processed m"
  shows "numbered (priv_send s m cb)"
proof -
  from assms(1) have n: "1 \<le> nextMessageId s" by (simp add: numbered_def)
  have u: "[1..nextMessageId s] = [1..nextMessageId s - 1] @ [nextMessageId s]"
    by (rule upto_snoc[OF n])
  from assms(1) have ids: "map msg_id (sent_frames (trace s)) @
       map msg_id (filter (\<lambda>m. \<not> msg_processed m) (waitingMessages s))
       = map Some [1..nextMessageId s - 1]"
    by (simp add: numbered_def handed_out_def)
  show ?thesis
  proof (cases "websocketConnected s")
    case True
    with assms(1) have "filter (\<lambda>m. \<not> msg_processed m) (waitingMessages s) = []"
      by (simp add: numbered_def queue_done_def list_all_iff)
    with assms True n ids show ?thesis
      by (simp add: numbered_def handed_out_def u queue_done_def)
  next
    case False
    with assms n ids show ?thesis
      by (simp add: numbered_def handed_out_def u queue_done_def)
  qed
qed

lemma send_waiting_eq:
  "send_waiting ms s =
     (map (\<lambda>m. m\<lparr> msg_processed := True \<rparr>) ms,
      s\<lparr> trace := trace s @ map WsSend (filter (\<lambda>m. \<not> msg_processed m) ms) \<rparr>)"
  by (induction ms arbitrary: s) (simp_all add: emit_def)

lemma priv_onOpenWebsocket_eq:
  "priv_onOpenWebsocket s ev =
     onOpenWebsocket
       (s\<lparr> websocketConnected := True,
           trace := trace s @ map WsSend (filter (\<lambda>m. \<not> msg_processed m) (waitingMessages s)),
           waitingMessages := map (\<lambda>m. m\<lparr> msg_processed := True \<rparr>) (waitingMessages s) \<rparr>) ev"
  by (simp add: priv_onOpenWebsocket_def send_waiting_eq)

lemma priv_onOpenWebsocket_fields [simp]:
  "nextMessageId (priv_onOpenWebsocket s ev) = nextMessageId s"
  "nextAttemptId (priv_onOpenWebsocket s ev) = nextAttemptId s"
  "waitingMessages (priv_onOpenWebsocket s ev) =
     map (\<lambda>m. m\<lparr> msg_processed := True \<rparr>) (waitingMessages s)"
  "websocketConnected (priv_onOpenWebsocket s ev)"
  "waitingCallbacks (priv_onOpenWebsocket s ev) = waitingCallbacks s"
  "promises (priv_onOpenWebsocket s ev) = promises s"
  "reconnect (priv_onOpenWebsocket s ev) = reconnect s"
  "show' (priv_onOpenWebsocket s ev) = show' s"
  "timers (priv_onOpenWebsocket s ev) = timers s"
  "sent_frames (trace (priv_onOpenWebsocket s ev)) =
     sent_frames (trace s) @ filter (\<lambda>m. \<not> msg_processed m) (waitingMessages s)"
  "invocations k (trace (priv_onOpenWebsocket s ev)) = invocations k (trace s)"
  "timeouts_set (trace (priv_onOpenWebsocket s ev)) = timeouts_set (trace s)"
  "sockets_created (trace (priv_onOpenWebsocket s ev)) = sockets_created (trace s)"
  "hooks_called (trace (priv_onOpenWebsocket s ev)) = hooks_called (trace s) @ [OnOpenWebsocket ev]"
  by (simp_all add: priv_onOpenWebsocket_eq trace_append sent_frames_WsSend invocations_WsSend
      timeouts_set_WsSend sockets_created_WsSend hooks_called_WsSend)

lemma priv_onCloseWebsocket_fields [simp]:
  "nextMessageId (priv_onCloseWebsocket s ev) = nextMessageId s"
  "nextAttemptId (priv_onCloseWebsocket s ev) = nextAttemptId s"
  "waitingMessages (priv_onCloseWebsocket s ev) = waitingMessages s"
  "\<not> websocketConnected (priv_onCloseWebsocket s ev)"
  "waitingCallbacks (priv_onCloseWebsocket s ev) = waitingCallbacks s"
  "promises (priv_onCloseWebsocket s ev) = promises s"
  "reconnect (priv_onCloseWebsocket s ev) = reconnect s"
  "show' (priv_onCloseWebsocket s ev) = show' s"
  "sent_frames (trace (priv_onCloseWebsocket s ev)) = sent_frames (trace s)"
  "invocations k (trace (priv_onCloseWebsocket s ev)) = invocations k (trace s)"
  "sockets_created (trace (priv_onCloseWebsocket s ev)) = sockets_created (trace s)"
  "hooks_called (trace (priv_onCloseWebsocket s ev)) = hooks_called (trace s) @ [OnCloseWebsocket ev]"
  by (simp_all add: priv_onCloseWebsocket_def Let_def trace_append)

lemma priv_onErrorWebsocket_fields [simp]:
  "nextMessageId (priv_onErrorWebsocket s ev) = nextMessageId s"
  "nextAttemptId (priv_onErrorWebsocket s ev) = nextAttemptId s"
  "waitingMessages (priv_onErrorWebsocket s ev) = waitingMessages s"
  "websocketConnected (priv_onErrorWebsocket s ev) = websocketConnected s"
  "waitingCallbacks (priv_onErrorWebsocket s ev) = waitingCallbacks s"
  "promises (priv_onErrorWebsocket s ev) = promises s"
  "reconnect (priv_onErrorWebsocket s ev) = reconnect s"
  "show' (priv_onErrorWebsocket s ev) = show' s"
  "timers (priv_onErrorWebsocket s ev) = timers s"
  "sent_frames (trace (priv_onErrorWebsocket s ev)) = sent_frames (trace s)"
  "invocations k (trace (priv_onErrorWebsocket s ev)) = invocations k (trace s)"
  "timeouts_set (trace (priv_onErrorWebsocket s ev)) = timeouts_set (trace s)"
  "sockets_created (trace (priv_onErrorWebsocket s ev)) = sockets_created (trace s)"
  "hooks_called (trace (priv_onErrorWebsocket s ev)) = hooks_called (trace s) @ [OnErrorWebsocket ev]"
  by (simp_all add: priv_onErrorWebsocket_def)

lemma numbered_open: "numbered s \<Longrightarrow> numbered (priv_onOpenWebsocket s ev)"
  by (simp add: numbered_def handed_out_def queue_done_def list_all_iff filter_empty_conv)

lemma numbered_close: "numbered s \<Longrightarrow> numbered (priv_onCloseWebsocket s ev)"
  by (simp add: numbered_def handed_out_def)

lemma numbered_error: "numbered s \<Longrightarrow> numbered (priv_onErrorWebsocket s ev)"
  by (simp add: numbered_def handed_out_def queue_done_def)

lemma lacks_id_None [simp]: "msg_id m = None \<Longrightarrow> lacks_id m"
  by (simp add: lacks_id_def)

lemma cmd_fields [simp]:
  "nextAttemptId (cmd s c params cb) = nextAttemptId s"
  "websocketConnected (cmd s c params cb) = websocketConnected s"
  "promises (cmd s c params cb) = promises s"
  "reconnect (cmd s c params cb) = reconnect s"
  "show' (cmd s c params cb) = show' s"
  "timers (cmd s c params cb) = timers s"
  "invocations k (trace (cmd s c params cb)) = invocations k (trace s)"
  "timeouts_set (trace (cmd s c params cb)) = timeouts_set (trace s)"
  "sockets_created (trace (cmd s c params cb)) = sockets_created (trace s)"
  "hooks_called (trace (cmd s c params cb)) = hooks_called (trace s)"
  by (simp_all add: cmd_def)

lemma response_fields [simp]:
  "nextAttemptId (response s to r) = nextAttemptId s"
  "websocketConnected (response s to r) = websocketConnected s"
  "waitingCallbacks (response s to r) = waitingCallbacks s"
  "promises (response s to r) = promises s"
  "reconnect (response s to r) = reconnect s"
  "show' (response s to r) = show' s"
  "timers (response s to r) = timers s"
  "invocations k (trace (response s to r)) = invocations k (trace s)"
  "timeouts_set (trace (response s to r)) = timeouts_set (trace s)"
  "sockets_created (trace (response s to r)) = sockets_created (trace s)"
  "hooks_called (trace (response s to r)) = hooks_called (trace s)"
  by (simp_all add: response_def)

lemma cmdp_fields [simp]:
  "nextAttemptId (fst (cmdp s c params)) = nextAttemptId s"
  "websocketConnected (fst (cmdp s c params)) = websocketConnected s"
  "promises (fst (cmdp s c params)) = promises s @ [Pending]"
  "reconnect (fst (cmdp s c params)) = reconnect s"
  "show' (fst (cmdp s c params)) = show' s"
  "timers (fst (cmdp s c params)) = timers s"
  "invocations k (trace (fst (cmdp s c params))) = invocations k (trace s)"
  "timeouts_set (trace (fst (cmdp s c params))) = timeouts_set (trace s)"
  "sockets_created (trace (fst (cmdp s c params))) = sockets_created (trace s)"
  "hooks_called (trace (fst (cmdp s c params))) = hooks_called (trace s)"
  "snd (cmdp s c params) = length (promises s)"
  by (simp_all add: cmdp_def Let_def)

lemma proxy_eq:
  "proxy s name args =
     cmdp s name (if args = [] then JUndefined
                  else if length args = 1 \<and> is_object (hd args) then hd args else JArr args)"
  by (simp add: proxy_def)

lemma priv_onRequest_response:
  "msg_cmd m = ''response'' \<Longrightarrow>
     priv_onRequest s m t =
       (case msg_to m of
          None \<Rightarrow> Returned s
        | Some k \<Rightarrow>
            (case waitingCallbacks s k of
               None \<Rightarrow> Returned s
             | Some cb \<Rightarrow>
                 if throws cb t
                 then Thrown (the t) (emit (CallbackInvoked k cb (msg_result m)) s)
                 else Returned
                   ((state_after (call_callback cb (msg_result m) t
                       (emit (CallbackInvoked k cb (msg_result m)) s)))
                     \<lparr> waitingCallbacks := (waitingCallbacks s)(k := None) \<rparr>)))"
proof -
  assume r: "msg_cmd m = ''response''"
  have "(case call_callback cb (msg_result m) t s' of
           Thrown e s1 \<Rightarrow> Thrown e s1
         | Returned s1 \<Rightarrow> Returned (s1\<lparr> waitingCallbacks := (waitingCallbacks s1)(k := None) \<rparr>)) =
        (if throws cb t then Thrown (the t) s'
         else Returned ((state_after (call_callback cb (msg_result m) t s'))
                \<lparr> waitingCallbacks := (waitingCallbacks s')(k := None) \<rparr>))" for cb k s'
    by (cases cb; cases t; simp)
  then show ?thesis
    using r by (simp add: priv_onRequest_def Let_def split: option.splits)
qed

lemma priv_onRequest_ping:
  "msg_cmd m = ''ping'' \<Longrightarrow>
     priv_onRequest s m t = Returned (response s (msg_id m) (JStr ''pong''))"
  by (simp add: priv_onRequest_def)

lemma priv_onRequest_other:
  "msg_cmd m \<noteq> ''response'' \<Longrightarrow> msg_cmd m \<noteq> ''ping'' \<Longrightarrow>
     priv_onRequest s m t = Returned (onRequest s (msg_cmd m) m)"
  by (simp add: priv_onRequest_def)

lemma priv_onRequest_cases:
  obtains "msg_cmd m = ''response''" | "msg_cmd m = ''ping''"
  | "msg_cmd m \<noteq> ''response''" "msg_cmd m \<noteq> ''ping''"
  by blast

lemma priv_onRequest_fields [simp]:
  "nextAttemptId (state_after (priv_onRequest s m t)) = nextAttemptId s"
  "websocketConnected (state_after (priv_onRequest s m t)) = websocketConnected s"
  "reconnect (state_after (priv_onRequest s m t)) = reconnect s"
  "show' (state_after (priv_onRequest s m t)) = show' s"
  "timers (state_after (priv_onRequest s m t)) = timers s"
  "timeouts_set (trace (state_after (priv_onRequest s m t))) = timeouts_set (trace s)"
  "sockets_created (trace (state_after (priv_onRequest s m t))) = sockets_created (trace s)"
  "length (promises (state_after (priv_onRequest s m t))) = length (promises s)"
  by (cases m rule: priv_onRequest_cases;
      simp add: priv_onRequest_response priv_onRequest_ping priv_onRequest_other trace_append
        split: option.splits)+

lemma step_fields:
  "nextAttemptId (step s e) = nextAttemptId s"
  by (cases e; simp add: proxy_eq priv_connect_resume_def init_def split: option.splits)

lemma run_Nil [simp]: "run s [] = s"
  by (simp add: run_def)

lemma run_Cons [simp]: "run s (e # es) = run (step s e) es"
  by (simp add: run_def)

lemma step_policy:
  assumes "\<And>site_arg options_in. e \<noteq> OtherClient site_arg options_in"
  shows "reconnect (step s e) = reconnect s" and "show' (step s e) = show' s"
  using assms
  by (cases e; simp add: proxy_eq priv_connect_resume_def init_def split: option.splits)+

lemma run_fields:
  "nextAttemptId (run s es) = nextAttemptId s"
  by (induction es arbitrary: s; simp add: step_fields)

lemma numbered_cong:
  assumes "sent_frames (trace s') = sent_frames (trace s)"
    and "waitingMessages s' = waitingMessages s"
    and "nextMessageId s' = nextMessageId s"
    and "websocketConnected s' = websocketConnected s"
  shows "numbered s' = numbered s"
  using assms by (simp add: numbered_def handed_out_def queue_done_def)

lemma numbered_cmd: "numbered s \<Longrightarrow> numbered (cmd s c params cb)"
  unfolding cmd_def by (rule numbered_priv_send) simp_all

lemma numbered_response: "numbered s \<Longrightarrow> numbered (response s to r)"
  unfolding response_def by (rule numbered_priv_send) simp_all

lemma numbered_cmdp: "numbered s \<Longrightarrow> numbered (fst (cmdp s c params))"
proof -
  assume "numbered s"
  then have "numbered (s\<lparr> promises := promises s @ [Pending] \<rparr>)"
    by (simp add: numbered_cong[of "s\<lparr> promises := promises s @ [Pending] \<rparr>" s])
  then show ?thesis
    by (simp add: cmdp_def Let_def numbered_cmd)
qed

lemma numbered_proxy: "numbered s \<Longrightarrow> numbered (fst (proxy s name args))"
  by (simp add: proxy_eq numbered_cmdp)

lemma numbered_onRequest: "numbered s \<Longrightarrow> numbered (state_after (priv_onRequest s m t))"
proof -
  assume n: "numbered s"
  consider "msg_cmd m = ''response''" | "msg_cmd m = ''ping''"
    | "msg_cmd m \<noteq> ''response''" "msg_cmd m \<noteq> ''ping''" by blast
  then show ?thesis
  proof cases
    case 1
    show ?thesis
      unfolding priv_onRequest_response[OF 1] using n
      by (auto split: option.splits if_splits
          simp: numbered_def handed_out_def queue_done_def trace_append)
  next
    case 2
    then show ?thesis using n by (simp add: priv_onRequest_ping numbered_response)
  next
    case 3
    then show ?thesis using n
      by (simp add: priv_onRequest_other numbered_def handed_out_def queue_done_def)
  qed
qed

lemma numbered_step: "numbered s \<Longrightarrow> numbered (step s e)"
proof (cases e)
  case (FetchDone c)
  assume "numbered s"
  then show ?thesis using FetchDone
    by (cases c) (simp_all add: priv_connect_resume_def init_def numbered_def handed_out_def
        queue_done_def)
next
  case TimerFired
  assume "numbered s"
  then show ?thesis using TimerFired
    by (simp add: numbered_def handed_out_def queue_done_def)
next
  case (OtherClient site_arg options_in)
  assume "numbered s"
  then show ?thesis using OtherClient
    by (simp add: numbered_def handed_out_def queue_done_def)
qed (simp_all add: numbered_cmd numbered_cmdp numbered_response numbered_proxy numbered_onRequest
    numbered_open numbered_close numbered_error)

lemma numbered_run: "numbered s \<Longrightarrow> numbered (run s es)"
  by (induction es arbitrary: s) (simp_all add: run_def numbered_step)

lemma constructor_Inr:
  "constructor shared site_arg opts = (shared', Inr s0) \<Longrightarrow>
     nextMessageId s0 = 1 \<and> nextAttemptId s0 = 1 \<and> waitingMessages s0 = []
     \<and> waitingCallbacks s0 = Map.empty \<and> \<not> websocketConnected s0 \<and> promises s0 = []
     \<and> timers s0 = 0 \<and> trace s0 = [Fetch (url s0)]
     \<and> reconnect s0 = opt_reconnect shared' \<and> show' s0 = opt_show shared'
     \<and> shared' = recursiveAssign shared (case opts of None \<Rightarrow> empty_options | Some a \<Rightarrow> a)
     \<and> truthy site_arg"
  by (auto simp: constructor_def Let_def priv_connect_def priv_getWrapperKey_def emit_def
      split: if_splits)

lemma numbered_constructor:
  "constructor shared site_arg opts = (shared', Inr s0) \<Longrightarrow> numbered s0"
  by (drule constructor_Inr) (simp add: numbered_def handed_out_def queue_done_def)

subsection \<open>The queue of waiting messages\<close>

lemma priv_send_not_connected:
  assumes "\<not> websocketConnected s"
  shows "waitingMessages (priv_send s m cb) =
           waitingMessages s @ [if lacks_id m then m\<lparr> msg_id := Some (nextMessageId s) \<rparr> else m]"
    and "trace (priv_send s m cb) = trace s"
    and "\<not> websocketConnected (priv_send s m cb)"
    and "nextMessageId (priv_send s m cb) = (if lacks_id m then nextMessageId s + 1 else nextMessageId s)"
  using assms by (simp_all add: priv_send_fields(10))

lemma send_all_Cons:
  "send_all s ((m, cb) # calls) = send_all (priv_send s m cb) calls"
  by (simp add: send_all_def)

lemma send_all_not_connected:
  "\<not> websocketConnected s \<Longrightarrow>
     waitingMessages (send_all s calls) =
       waitingMessages s @ assign_ids (nextMessageId s) (map fst calls)
     \<and> trace (send_all s calls) = trace s
     \<and> \<not> websocketConnected (send_all s calls)"
proof (induction calls arbitrary: s)
  case Nil
  then show ?case by (simp add: send_all_def)
next
  case (Cons c calls)
  obtain m cb where c: "c = (m, cb)" by (cases c)
  note ps = priv_send_not_connected[OF Cons.prems, of m cb]
  have "waitingMessages (send_all (priv_send s m cb) calls) =
       waitingMessages (priv_send s m cb) @ assign_ids (nextMessageId (priv_send s m cb)) (map fst calls)
     \<and> trace (send_all (priv_send s m cb) calls) = trace (priv_send s m cb)
     \<and> \<not> websocketConnected (send_all (priv_send s m cb) calls)"
    by (rule Cons.IH[OF ps(3)])
  then show ?case
    unfolding c send_all_Cons ps by simp
qed

lemma filter_assign_ids:
  "\<forall>m\<in>set ms. \<not> msg_processed m \<Longrightarrow>
     filter (\<lambda>m. \<not> msg_processed m) (assign_ids n ms) = assign_ids n ms"
  by (induction ms arbitrary: n) auto

lemma open_queue_done: "queue_done (priv_onOpenWebsocket s ev)"
  by (simp add: queue_done_def list_all_iff)

lemma socket_event_quiet:
  "socket_event e \<Longrightarrow> queue_done s \<Longrightarrow>
     queue_done (step s e) \<and> sent_frames (trace (step s e)) = sent_frames (trace s)"
proof (cases e)
  case (WsOpen ev)
  assume "queue_done s"
  then have "filter (\<lambda>m. \<not> msg_processed m) (waitingMessages s) = []"
    by (simp add: queue_done_def list_all_iff)
  then show ?thesis using WsOpen open_queue_done[of s ev] by simp
next
  case (FetchDone c)
  assume "queue_done s"
  then show ?thesis using FetchDone
    by (cases c) (simp_all add: queue_done_def priv_connect_resume_def init_def)
qed (simp_all add: queue_done_def)

lemma socket_events_quiet:
  "list_all socket_event es \<Longrightarrow> queue_done s \<Longrightarrow>
     queue_done (run s es) \<and> sent_frames (trace (run s es)) = sent_frames (trace s)"
proof (induction es arbitrary: s)
  case Nil
  then show ?case by (simp add: run_def)
next
  case (Cons e es)
  from Cons.prems have e: "socket_event e" and es: "list_all socket_event es" by simp_all
  note q = socket_event_quiet[OF e Cons.prems(2)]
  from Cons.IH[OF es conjunct1[OF q]] q show ?case by (simp add: run_def)
qed

text \<open>
  C1. Messages sent while the socket is not open are not transmitted; they are queued. When
  the socket opens, the frames handed to it are, in this order, the entries of the queue
  that were still unprocessed and then the messages of the calls, numbered, each once.
  After that every entry has its flag set, and no later socket event (open, close, error,
  timer), however often repeated, transmits anything again. In every run of a session,
  whatever the calls and events, no two transmitted frames carry the same identifier: no
  message is ever transmitted twice.
\<close>

theorem queued_messages_sent_once_in_order:
  assumes "\<not> websocketConnected s" and "\<forall>c\<in>set calls. \<not> msg_processed (fst c)"
  shows "sent_frames (trace (send_all s calls)) = sent_frames (trace s)
     \<and> sent_frames (trace (priv_onOpenWebsocket (send_all s calls) ev)) =
         sent_frames (trace s) @ filter (\<lambda>m. \<not> msg_processed m) (waitingMessages s)
           @ assign_ids (nextMessageId s) (map fst calls)
     \<and> list_all msg_processed (waitingMessages (priv_onOpenWebsocket (send_all s calls) ev))
     \<and> (\<forall>es. list_all socket_event es \<longrightarrow>
           sent_frames (trace (run (priv_onOpenWebsocket (send_all s calls) ev) es)) =
             sent_frames (trace (priv_onOpenWebsocket (send_all s calls) ev)))
     \<and> (constructor shared site_arg opts = (shared', Inr s0) \<longrightarrow>
           distinct (map msg_id (sent_frames (trace (run s0 es0)))))"
proof -
  note sa = send_all_not_connected[OF assms(1), of calls]
  have f: "filter (\<lambda>m. \<not> msg_processed m) (assign_ids (nextMessageId s) (map fst calls)) =
             assign_ids (nextMessageId s) (map fst calls)"
    using assms(2) by (intro filter_assign_ids) simp
  have 1: "sent_frames (trace (send_all s calls)) = sent_frames (trace s)"
    using sa by simp
  have 2: "sent_frames (trace (priv_onOpenWebsocket (send_all s calls) ev)) =
         sent_frames (trace s) @ filter (\<lambda>m. \<not> msg_processed m) (waitingMessages s)
           @ assign_ids (nextMessageId s) (map fst calls)"
    using sa f by simp
  have 3: "queue_done (priv_onOpenWebsocket (send_all s calls) ev)"
    by (rule open_queue_done)
  have 4: "distinct (map msg_id (sent_frames (trace (run s0 es0))))"
    if "constructor shared site_arg opts = (shared', Inr s0)"
  proof -
    have "numbered (run s0 es0)"
      by (rule numbered_run[OF numbered_constructor[OF that]])
    then have "distinct (map msg_id (handed_out (run s0 es0)))"
      by (simp add: numbered_def distinct_map)
    then show ?thesis by (simp add: handed_out_def)
  qed
  from 1 2 3 4 socket_events_quiet[OF _ 3] show ?thesis
    by (simp add: queue_done_def)
qed

lemma example_client_constructed:
  "constructor documented_defaults (JStr ''1HeLLo'') None = (documented_defaults, Inr example_client)"
  by (simp add: example_client_def constructor_def recursiveAssign_def empty_options_def
      documented_defaults_def assign_multiuser_def assign_instance_def assign_show_def
      assign_reconnect_def)

theorem queued_messages_sent_once_in_order_witness:
  "sent_frames (trace (priv_onOpenWebsocket
       (send_all example_client [(example_cmd ''siteInfo'', None), (example_cmd ''serverInfo'', None)])
       JNull)) =
     [(example_cmd ''siteInfo'')\<lparr> msg_id := Some 1 \<rparr>, (example_cmd ''serverInfo'')\<lparr> msg_id := Some 2 \<rparr>]
   \<and> sent_frames (trace (run (priv_onOpenWebsocket
       (send_all example_client [(example_cmd ''siteInfo'', None), (example_cmd ''serverInfo'', None)])
       JNull) [WsClose JNull, TimerFired, WsOpen JNull])) =
     [(example_cmd ''siteInfo'')\<lparr> msg_id := Some 1 \<rparr>, (example_cmd ''serverInfo'')\<lparr> msg_id := Some 2 \<rparr>]"
  using queued_messages_sent_once_in_order
    [of example_client "[(example_cmd ''siteInfo'', None), (example_cmd ''serverInfo'', None)]" JNull]
    constructor_Inr[OF example_client_constructed]
  by (simp add: example_cmd_def lacks_id_def send_all_def run_def)

text \<open>
  C6. \<^verbatim>\<open>_send\<close> gives a message without an identifier the current value of the counter and
  advances the counter by one; a message that has a (non-zero) identifier keeps it and
  leaves the counter alone. The counter of a new client is 1. Hence in every run of a
  session, whatever the calls and events, the messages handed out carry the identifiers
  1, 2, 3, ... in the order of their creation: the \<open>i\<close>-th (counted from 0) has
  identifier \<open>i + 1\<close>, and no identifier occurs twice.
\<close>

theorem identifiers_sequential:
  assumes "constructor shared site_arg opts = (shared', Inr s0)"
  shows "nextMessageId s0 = 1
     \<and> map msg_id (handed_out (run s0 es)) = map Some [1..nextMessageId (run s0 es) - 1]
     \<and> (\<forall>i<length (handed_out (run s0 es)). msg_id (handed_out (run s0 es) ! i) = Some (int i + 1))
     \<and> distinct (map msg_id (handed_out (run s0 es)))
     \<and> (msg_id m = None \<longrightarrow>
           nextMessageId (priv_send s m cb) = nextMessageId s + 1
           \<and> (if websocketConnected s
               then trace (priv_send s m cb) = trace s @ [WsSend (m\<lparr> msg_id := Some (nextMessageId s) \<rparr>)]
               else waitingMessages (priv_send s m cb) =
                      waitingMessages s @ [m\<lparr> msg_id := Some (nextMessageId s) \<rparr>]))
     \<and> (msg_id m = Some j \<and> j \<noteq> 0 \<longrightarrow>
           nextMessageId (priv_send s m cb) = nextMessageId s
           \<and> (if websocketConnected s
               then trace (priv_send s m cb) = trace s @ [WsSend m]
               else waitingMessages (priv_send s m cb) = waitingMessages s @ [m]))"
proof -
  let ?s = "run s0 es"
  have n: "numbered ?s"
    by (rule numbered_run[OF numbered_constructor[OF assms]])
  then have ids: "map msg_id (handed_out ?s) = map Some [1..nextMessageId ?s - 1]"
    by (simp add: numbered_def)
  have nth: "msg_id (handed_out ?s ! i) = Some (int i + 1)" if "i < length (handed_out ?s)" for i
  proof -
    from that have "map msg_id (handed_out ?s) ! i = msg_id (handed_out ?s ! i)" by simp
    moreover from ids that have len: "i < length [1..nextMessageId ?s - 1]"
      by (metis length_map)
    then have "map Some [1..nextMessageId ?s - 1] ! i = Some (1 + int i)"
      by (simp add: nth_upto)
    ultimately show ?thesis using ids by (simp add: add.commute)
  qed
  have d: "distinct (map msg_id (handed_out ?s))"
    unfolding ids by (simp add: distinct_map)
  from constructor_Inr[OF assms] ids nth d show ?thesis
    by (simp add: priv_send_fields(10) lacks_id_def)
qed

theorem identifiers_sequential_witness:
  "constructor documented_defaults (JStr ''1HeLLo'') None = (documented_defaults, Inr example_client)
   \<and> map msg_id (handed_out (run example_client
         [Cmd ''siteInfo'' JUndefined None, WsOpen JNull, Cmdp ''serverInfo'' JUndefined,
          WsMessage \<lparr> msg_id = Some 7, msg_cmd = ''ping'', msg_params = JUndefined, msg_to = None,
                      msg_result = JUndefined, msg_processed = False \<rparr> None]))
       = [Some 1, Some 2, Some 3]"
proof -
  have c: "constructor documented_defaults (JStr ''1HeLLo'') None = (documented_defaults, Inr example_client)"
    by (simp add: example_client_def constructor_def recursiveAssign_def empty_options_def
      documented_defaults_def assign_multiuser_def assign_instance_def assign_show_def
      assign_reconnect_def)
  have "nextMessageId (run example_client
         [Cmd ''siteInfo'' JUndefined None, WsOpen JNull, Cmdp ''serverInfo'' JUndefined,
          WsMessage \<lparr> msg_id = Some 7, msg_cmd = ''ping'', msg_params = JUndefined, msg_to = None,
                      msg_result = JUndefined, msg_processed = False \<rparr> None]) = 4"
    using constructor_Inr[OF c]
    by (simp add: run_def cmd_def cmdp_def response_def priv_onRequest_ping Let_def)
  with c identifiers_sequential[OF c, of "[Cmd ''siteInfo'' JUndefined None, WsOpen JNull, Cmdp ''serverInfo'' JUndefined,
          WsMessage \<lparr> msg_id = Some 7, msg_cmd = ''ping'', msg_params = JUndefined, msg_to = None,
                      msg_result = JUndefined, msg_processed = False \<rparr> None]"]
  show ?thesis by (simp add: upto.simps)
qed

subsection \<open>The table of callbacks\<close>

lemma called_once_cong:
  assumes "invocations k (trace s') = invocations k (trace s)"
    and "waitingCallbacks s' = waitingCallbacks s"
    and "nextMessageId s' = nextMessageId s"
  shows "called_once k s' = called_once k s"
  using assms by (simp add: called_once_def)

lemma called_once_priv_send:
  assumes "called_once k s" "lacks_id m"
  shows "called_once k (priv_send s m cb)"
  unfolding called_once_def
proof -
  from assms(1) have k: "length (invocations k (trace s)) \<le> 1"
    "waitingCallbacks s k \<noteq> None \<Longrightarrow> k < nextMessageId s \<and> invocations k (trace s) = []"
    "invocations k (trace s) \<noteq> [] \<Longrightarrow> k < nextMessageId s"
    by (simp_all add: called_once_def)
  from k(3) have fresh: "k = nextMessageId s \<Longrightarrow> invocations k (trace s) = []"
    by fastforce
  show "length (invocations k (trace (priv_send s m cb))) \<le> 1
      \<and> (waitingCallbacks (priv_send s m cb) k \<noteq> None \<longrightarrow>
          k < nextMessageId (priv_send s m cb) \<and> invocations k (trace (priv_send s m cb)) = [])
      \<and> (invocations k (trace (priv_send s m cb)) \<noteq> [] \<longrightarrow> k < nextMessageId (priv_send s m cb))"
    using assms(2) k fresh by (cases cb) (auto split: if_splits)
qed

lemma called_once_cmd: "called_once k s \<Longrightarrow> called_once k (cmd s c params cb)"
  unfolding cmd_def by (rule called_once_priv_send) simp_all

lemma called_once_response: "called_once k s \<Longrightarrow> called_once k (response s to r)"
  unfolding response_def by (rule called_once_priv_send) simp_all

lemma called_once_cmdp: "called_once k s \<Longrightarrow> called_once k (fst (cmdp s c params))"
proof -
  assume "called_once k s"
  then have "called_once k (s\<lparr> promises := promises s @ [Pending] \<rparr>)"
    by (simp add: called_once_cong[of k "s\<lparr> promises := promises s @ [Pending] \<rparr>" s])
  then show ?thesis
    by (simp add: cmdp_def Let_def called_once_cmd)
qed

lemma called_once_proxy: "called_once k s \<Longrightarrow> called_once k (fst (proxy s name args))"
  by (simp add: proxy_eq called_once_cmdp)

lemma response_matched:
  assumes "msg_cmd m = ''response''" "msg_to m = Some k" "waitingCallbacks s k = Some cb"
  shows "priv_onRequest s m t =
       (if throws cb t
        then Thrown (the t) (emit (CallbackInvoked k cb (msg_result m)) s)
        else Returned
          ((state_after (call_callback cb (msg_result m) t
              (emit (CallbackInvoked k cb (msg_result m)) s)))
            \<lparr> waitingCallbacks := (waitingCallbacks s)(k := None) \<rparr>))"
    and "trace (state_after (priv_onRequest s m t)) = trace s @ [CallbackInvoked k cb (msg_result m)]"
    and "waitingCallbacks (state_after (priv_onRequest s m t)) =
           (if throws cb t then waitingCallbacks s else (waitingCallbacks s)(k := None))"
    and "nextMessageId (state_after (priv_onRequest s m t)) = nextMessageId s"
    and "waitingMessages (state_after (priv_onRequest s m t)) = waitingMessages s"
    and "websocketConnected (state_after (priv_onRequest s m t)) = websocketConnected s"
  using assms by (simp_all add: priv_onRequest_response)

lemma response_unmatched:
  assumes "msg_cmd m = ''response''" "msg_to m = None \<or> (\<exists>k. msg_to m = Some k \<and> waitingCallbacks s k = None)"
  shows "priv_onRequest s m t = Returned s"
  using assms by (auto simp: priv_onRequest_response)

lemma called_once_onRequest:
  assumes c: "called_once k s" and q: "\<not> throws_at k s (WsMessage m t)"
  shows "called_once k (state_after (priv_onRequest s m t))"
proof -
  consider "msg_cmd m = ''response''" | "msg_cmd m = ''ping''"
    | "msg_cmd m \<noteq> ''response''" "msg_cmd m \<noteq> ''ping''" by blast
  then show ?thesis
  proof cases
    case 1
    show ?thesis
    proof (cases "msg_to m")
      case None
      with 1 c show ?thesis by (simp add: response_unmatched)
    next
      case (Some j)
      show ?thesis
      proof (cases "waitingCallbacks s j")
        case None
        with 1 Some c show ?thesis by (simp add: response_unmatched)
      next
        case (Some cb)
        note r = response_matched[OF 1 \<open>msg_to m = Some j\<close> Some, of t]
        have nt: "j = k \<Longrightarrow> \<not> throws cb t"
          using q 1 \<open>msg_to m = Some j\<close> Some by simp
        from c show ?thesis
          unfolding called_once_def r(2,3,4) using Some nt
          by (auto simp: trace_append)
      qed
    qed
  next
    case 2
    then show ?thesis using c by (simp add: priv_onRequest_ping called_once_response)
  next
    case 3
    then show ?thesis using c
      by (simp add: priv_onRequest_other called_once_def)
  qed
qed

lemma called_once_step:
  "called_once k s \<Longrightarrow> \<not> throws_at k s e \<Longrightarrow> called_once k (step s e)"
proof (cases e)
  case (FetchDone c)
  assume "called_once k s"
  then show ?thesis using FetchDone
    by (cases c) (simp_all add: priv_connect_resume_def init_def called_once_def)
next
  case TimerFired
  assume "called_once k s"
  then show ?thesis using TimerFired
    by (simp add: called_once_def)
next
  case (WsMessage m t)
  assume "called_once k s" "\<not> throws_at k s e"
  then have "called_once k (state_after (priv_onRequest s m t))"
    unfolding WsMessage by (rule called_once_onRequest)
  then show ?thesis using WsMessage by simp
next
  case (OtherClient site_arg options_in)
  assume "called_once k s"
  then show ?thesis using OtherClient
    by (simp add: called_once_def)
qed (simp_all add: called_once_cmd called_once_cmdp called_once_response called_once_proxy,
    simp_all add: called_once_def)

lemma called_once_run:
  "called_once k s \<Longrightarrow> never_throws k s es \<Longrightarrow> called_once k (run s es)"
  by (induction es arbitrary: s) (simp_all add: called_once_step)

lemma called_once_constructor:
  "constructor shared site_arg opts = (shared', Inr s0) \<Longrightarrow> called_once k s0"
  by (drule constructor_Inr) (simp add: called_once_def)

text \<open>
  C3 (amended). A response frame whose \<^verbatim>\<open>to\<close> has a callback waiting calls that callback
  once, with the frame's result. If the call returns, the handler returns, the entry is
  deleted, and a second response frame for the same identifier then changes nothing and
  calls nothing. If the call throws (a user's callback; the closure of \<^verbatim>\<open>cmdp\<close> does not
  throw), the exception leaves \<^verbatim>\<open>_onRequest\<close> before the \<^verbatim>\<open>delete\<close> of line 168: the entry
  stays, and a second response frame for the same identifier calls the same callback
  again. A response frame whose \<^verbatim>\<open>to\<close> has no callback waiting (or has no \<^verbatim>\<open>to\<close>) changes
  nothing at all. In every run of a session in which no callback call under an identifier
  throws, at most one callback call ever happens under that identifier.
\<close>

theorem response_callback_once_unless_thrown:
  assumes "msg_cmd m = ''response''" and "msg_cmd m' = ''response''"
  shows "(msg_to m = Some k \<and> waitingCallbacks s k = Some cb \<and> \<not> throws cb t \<longrightarrow>
            priv_onRequest s m t = Returned (state_after (priv_onRequest s m t))
            \<and> trace (state_after (priv_onRequest s m t)) =
                trace s @ [CallbackInvoked k cb (msg_result m)]
            \<and> waitingCallbacks (state_after (priv_onRequest s m t)) = (waitingCallbacks s)(k := None)
            \<and> (msg_to m' = Some k \<longrightarrow>
                 priv_onRequest (state_after (priv_onRequest s m t)) m' t' =
                   Returned (state_after (priv_onRequest s m t))))
     \<and> (msg_to m = Some k \<and> waitingCallbacks s k = Some (UserCallback u) \<longrightarrow>
            priv_onRequest s m (Some e) =
              Thrown e (emit (CallbackInvoked k (UserCallback u) (msg_result m)) s)
            \<and> waitingCallbacks (state_after (priv_onRequest s m (Some e))) = waitingCallbacks s
            \<and> (msg_to m' = Some k \<longrightarrow>
                 trace (state_after (priv_onRequest (state_after (priv_onRequest s m (Some e))) m' t')) =
                   trace s @ [CallbackInvoked k (UserCallback u) (msg_result m),
                              CallbackInvoked k (UserCallback u) (msg_result m')]))
     \<and> (msg_to m = Some k \<and> waitingCallbacks s k = None \<longrightarrow> priv_onRequest s m t = Returned s)
     \<and> (msg_to m = None \<longrightarrow> priv_onRequest s m t = Returned s)
     \<and> (constructor shared site_arg opts = (shared', Inr s0) \<and> never_throws k s0 es \<longrightarrow>
           length (invocations k (trace (run s0 es))) \<le> 1)"
proof -
  have 1: "priv_onRequest s m t = Returned (state_after (priv_onRequest s m t))
      \<and> trace (state_after (priv_onRequest s m t)) = trace s @ [CallbackInvoked k cb (msg_result m)]
      \<and> waitingCallbacks (state_after (priv_onRequest s m t)) = (waitingCallbacks s)(k := None)
      \<and> (msg_to m' = Some k \<longrightarrow>
           priv_onRequest (state_after (priv_onRequest s m t)) m' t' =
             Returned (state_after (priv_onRequest s m t)))"
    if "msg_to m = Some k" "waitingCallbacks s k = Some cb" "\<not> throws cb t"
  proof -
    note r = response_matched[OF assms(1) that(1,2), of t]
    have a: "priv_onRequest s m t = Returned (state_after (priv_onRequest s m t))"
      using that(3) by (simp add: r(1))
    have b: "waitingCallbacks (state_after (priv_onRequest s m t)) = (waitingCallbacks s)(k := None)"
      using that(3) by (simp add: r(3))
    have "priv_onRequest (state_after (priv_onRequest s m t)) m' t' =
        Returned (state_after (priv_onRequest s m t))" if "msg_to m' = Some k"
      by (rule response_unmatched[OF assms(2)]) (simp add: that b)
    with a b r(2) show ?thesis by simp
  qed
  have 2: "priv_onRequest s m (Some e) =
        Thrown e (emit (CallbackInvoked k (UserCallback u) (msg_result m)) s)
      \<and> waitingCallbacks (state_after (priv_onRequest s m (Some e))) = waitingCallbacks s
      \<and> (msg_to m' = Some k \<longrightarrow>
           trace (state_after (priv_onRequest (state_after (priv_onRequest s m (Some e))) m' t')) =
             trace s @ [CallbackInvoked k (UserCallback u) (msg_result m),
                        CallbackInvoked k (UserCallback u) (msg_result m')])"
    if "msg_to m = Some k" "waitingCallbacks s k = Some (UserCallback u)"
  proof -
    note r = response_matched[OF assms(1) that, of "Some e"]
    have a: "priv_onRequest s m (Some e) =
        Thrown e (emit (CallbackInvoked k (UserCallback u) (msg_result m)) s)"
      by (simp add: r(1))
    have b: "waitingCallbacks (state_after (priv_onRequest s m (Some e))) = waitingCallbacks s"
      by (simp add: r(3))
    have "trace (state_after (priv_onRequest (state_after (priv_onRequest s m (Some e))) m' t')) =
        trace s @ [CallbackInvoked k (UserCallback u) (msg_result m),
                   CallbackInvoked k (UserCallback u) (msg_result m')]"
      if m': "msg_to m' = Some k"
    proof -
      have w: "waitingCallbacks (state_after (priv_onRequest s m (Some e))) k = Some (UserCallback u)"
        using b \<open>waitingCallbacks s k = Some (UserCallback u)\<close> by simp
      show ?thesis
        unfolding response_matched(2)[OF assms(2) m' w] r(2) by simp
    qed
    with a b show ?thesis by simp
  qed
  have 3: "priv_onRequest s m t = Returned s" if "msg_to m = Some k" "waitingCallbacks s k = None"
    using that by (intro response_unmatched[OF assms(1)]) simp
  have 4: "priv_onRequest s m t = Returned s" if "msg_to m = None"
    using that by (intro response_unmatched[OF assms(1)]) simp
  have 5: "length (invocations k (trace (run s0 es))) \<le> 1"
    if "constructor shared site_arg opts = (shared', Inr s0)" "never_throws k s0 es"
    using called_once_run[OF called_once_constructor[OF that(1)] that(2)]
    by (simp add: called_once_def)
  from 1 2 3 4 5 show ?thesis by blast
qed

theorem response_callback_once_unless_thrown_witness:
  "waitingCallbacks (cmd example_client ''siteInfo'' JUndefined (Some (UserCallback 0))) 1
     = Some (UserCallback 0)
   \<and> trace (state_after (priv_onRequest
        (cmd example_client ''siteInfo'' JUndefined (Some (UserCallback 0)))
        (response_frame 1 (JStr ''ok'')) None))
     = trace example_client @ [CallbackInvoked 1 (UserCallback 0) (JStr ''ok'')]
   \<and> priv_onRequest
        (state_after (priv_onRequest
           (cmd example_client ''siteInfo'' JUndefined (Some (UserCallback 0)))
           (response_frame 1 (JStr ''ok'')) None))
        (response_frame 1 (JStr ''again'')) None
     = Returned (state_after (priv_onRequest
         (cmd example_client ''siteInfo'' JUndefined (Some (UserCallback 0)))
         (response_frame 1 (JStr ''ok'')) None))
   \<and> trace (state_after (priv_onRequest
        (state_after (priv_onRequest
           (cmd example_client ''siteInfo'' JUndefined (Some (UserCallback 0)))
           (response_frame 1 (JStr ''ok'')) (Some (Error ''boom''))))
        (response_frame 1 (JStr ''again'')) None))
     = trace example_client @ [CallbackInvoked 1 (UserCallback 0) (JStr ''ok''),
                               CallbackInvoked 1 (UserCallback 0) (JStr ''again'')]
   \<and> priv_onRequest example_client (response_frame 1 (JStr ''ok'')) None = Returned example_client
   \<and> never_throws 1 example_client
        [Cmd ''siteInfo'' JUndefined (Some 0), WsMessage (response_frame 1 (JStr ''ok'')) None,
         WsMessage (response_frame 1 (JStr ''again'')) (Some (Error ''boom''))]
   \<and> length (invocations 1 (trace (run example_client
        [Cmd ''siteInfo'' JUndefined (Some 0), WsMessage (response_frame 1 (JStr ''ok'')) None,
         WsMessage (response_frame 1 (JStr ''again'')) (Some (Error ''boom''))]))) \<le> 1"
proof -
  let ?s = "cmd example_client ''siteInfo'' JUndefined (Some (UserCallback 0))"
  let ?es = "[Cmd ''siteInfo'' JUndefined (Some 0), WsMessage (response_frame 1 (JStr ''ok'')) None,
         WsMessage (response_frame 1 (JStr ''again'')) (Some (Error ''boom''))]"
  have n: "nextMessageId example_client = 1" "waitingCallbacks example_client = Map.empty"
    "\<not> websocketConnected example_client"
    using constructor_Inr[OF example_client_constructed] by simp_all
  have w: "waitingCallbacks ?s 1 = Some (UserCallback 0)" "trace ?s = trace example_client"
    by (simp_all add: cmd_def n priv_send_fields(10))
  have r: "msg_cmd (response_frame 1 (JStr ''ok'')) = ''response''"
    "msg_cmd (response_frame 1 (JStr ''again'')) = ''response''"
    "msg_to (response_frame 1 (JStr ''ok'')) = Some 1"
    "msg_to (response_frame 1 (JStr ''again'')) = Some 1"
    "msg_result (response_frame 1 (JStr ''ok'')) = JStr ''ok''"
    "msg_result (response_frame 1 (JStr ''again'')) = JStr ''again''"
    by (simp_all add: response_frame_def)
  have q: "never_throws 1 example_client ?es"
    using w(1) r by (simp add: response_matched(3))
  note t1 = response_callback_once_unless_thrown[OF r(1) r(2), of 1 ?s "UserCallback 0" None None
      0 "Error ''boom''" documented_defaults "JStr ''1HeLLo''" None documented_defaults
      example_client ?es]
  note t2 = response_callback_once_unless_thrown[OF r(1) r(2), of 1 example_client
      "UserCallback 0" None None 0 "Error ''boom''" documented_defaults "JStr ''1HeLLo''" None
      documented_defaults example_client ?es]
  have nt: "\<not> throws (UserCallback 0) None" by simp
  from t1 w(1) r(3,4) q nt example_client_constructed have a: "trace (state_after (priv_onRequest ?s (response_frame 1 (JStr ''ok'')) None))
       = trace ?s @ [CallbackInvoked 1 (UserCallback 0) (msg_result (response_frame 1 (JStr ''ok'')))]"
    and b: "priv_onRequest (state_after (priv_onRequest ?s (response_frame 1 (JStr ''ok'')) None))
          (response_frame 1 (JStr ''again'')) None
       = Returned (state_after (priv_onRequest ?s (response_frame 1 (JStr ''ok'')) None))"
    and c: "trace (state_after (priv_onRequest
          (state_after (priv_onRequest ?s (response_frame 1 (JStr ''ok'')) (Some (Error ''boom''))))
          (response_frame 1 (JStr ''again'')) None))
       = trace ?s @ [CallbackInvoked 1 (UserCallback 0) (msg_result (response_frame 1 (JStr ''ok''))),
                     CallbackInvoked 1 (UserCallback 0) (msg_result (response_frame 1 (JStr ''again'')))]"
    and d: "length (invocations 1 (trace (run example_client ?es))) \<le> 1"
    by blast+
  from t2 n(2) r(3) have e: "priv_onRequest example_client (response_frame 1 (JStr ''ok'')) None
       = Returned example_client"
    by simp
  from a b c d e q w show ?thesis
    unfolding r(5,6) by simp
qed

text \<open>
  C3, as stated, fails: the first response frame for identifier 1 makes the user's callback
  throw, so the entry is not deleted, and the second response frame for identifier 1 calls
  the callback a second time.
\<close>

theorem response_callback_twice_counterexample:
  "invocations 1 (trace (run example_client
      [Cmd ''siteInfo'' JUndefined (Some 0),
       WsMessage (response_frame 1 (JStr ''ok'')) (Some (Error ''boom'')),
       WsMessage (response_frame 1 (JStr ''again'')) None]))
     = [(UserCallback 0, JStr ''ok''), (UserCallback 0, JStr ''again'')]
   \<and> \<not> length (invocations 1 (trace (run example_client
      [Cmd ''siteInfo'' JUndefined (Some 0),
       WsMessage (response_frame 1 (JStr ''ok'')) (Some (Error ''boom'')),
       WsMessage (response_frame 1 (JStr ''again'')) None]))) \<le> 1"
proof -
  let ?s = "cmd example_client ''siteInfo'' JUndefined (Some (UserCallback 0))"
  have n: "nextMessageId example_client = 1" "waitingCallbacks example_client = Map.empty"
    "\<not> websocketConnected example_client" "trace example_client = [Fetch (url example_client)]"
    using constructor_Inr[OF example_client_constructed] by simp_all
  have w: "waitingCallbacks ?s 1 = Some (UserCallback 0)" "trace ?s = trace example_client"
    by (simp_all add: cmd_def n priv_send_fields(10))
  have r: "msg_cmd (response_frame 1 r') = ''response''" "msg_to (response_frame 1 r') = Some 1"
    "msg_result (response_frame 1 r') = r'" for r'
    by (simp_all add: response_frame_def)
  have w': "waitingCallbacks (state_after (priv_onRequest ?s (response_frame 1 (JStr ''ok''))
      (Some (Error ''boom'')))) 1 = Some (UserCallback 0)"
    using w(1) by (simp add: response_matched(3)[OF r(1) r(2) w(1)])
  have "trace (run example_client
      [Cmd ''siteInfo'' JUndefined (Some 0),
       WsMessage (response_frame 1 (JStr ''ok'')) (Some (Error ''boom'')),
       WsMessage (response_frame 1 (JStr ''again'')) None])
     = trace example_client @ [CallbackInvoked 1 (UserCallback 0) (JStr ''ok''),
         CallbackInvoked 1 (UserCallback 0) (JStr ''again'')]"
    by (simp add: response_matched(2)[OF r(1) r(2) w'] response_matched(2)[OF r(1) r(2) w(1)]
        r(3) w(2))
  then show ?thesis by (simp add: n(4) trace_append)
qed

subsection \<open>Keep-alive\<close>

text \<open>
  C4. An inbound frame with \<^verbatim>\<open>cmd = "ping"\<close> and identifier \<open>n\<close> makes the dispatcher call
  the send path once with the message \<^verbatim>\<open>{cmd: "response", to: n, result: "pong"}\<close>: the
  message gets the next identifier and is handed to the socket if it is open, queued
  otherwise; no hook is called. A frame with any other \<^verbatim>\<open>cmd\<close> hands no message to the
  socket and queues none.
\<close>

theorem ping_answered_with_pong:
  "(msg_cmd m = ''ping'' \<longrightarrow>
      priv_onRequest s m t = Returned (priv_send s (pong (msg_id m)) None)
      \<and> trace (state_after (priv_onRequest s m t)) =
          (if websocketConnected s
           then trace s @ [WsSend ((pong (msg_id m))\<lparr> msg_id := Some (nextMessageId s) \<rparr>)]
           else trace s)
      \<and> waitingMessages (state_after (priv_onRequest s m t)) =
          (if websocketConnected s then waitingMessages s
           else waitingMessages s @ [(pong (msg_id m))\<lparr> msg_id := Some (nextMessageId s) \<rparr>])
      \<and> hooks_called (trace (state_after (priv_onRequest s m t))) = hooks_called (trace s))
   \<and> (msg_cmd m \<noteq> ''ping'' \<longrightarrow>
      sent_frames (trace (state_after (priv_onRequest s m t))) = sent_frames (trace s)
      \<and> waitingMessages (state_after (priv_onRequest s m t)) = waitingMessages s)"
proof -
  have other: "sent_frames (trace (state_after (priv_onRequest s m t))) = sent_frames (trace s)
      \<and> waitingMessages (state_after (priv_onRequest s m t)) = waitingMessages s" if "msg_cmd m \<noteq> ''ping''"
  proof (cases "msg_cmd m = ''response''")
    case True
    then show ?thesis
      by (simp add: priv_onRequest_response trace_append split: option.splits)
  next
    case False
    with that show ?thesis by (simp add: priv_onRequest_other)
  qed
  have ping: "priv_onRequest s m t = Returned (priv_send s (pong (msg_id m)) None)"
    if "msg_cmd m = ''ping''"
    using that by (simp add: priv_onRequest_ping response_def pong_def)
  have l: "lacks_id (pong (msg_id m))" by (simp add: pong_def)
  from other ping l show ?thesis
    by (simp add: priv_send_fields(10) trace_append)
qed

theorem ping_answered_with_pong_witness:
  "trace (state_after (priv_onRequest (priv_onOpenWebsocket example_client JNull)
       \<lparr> msg_id = Some 7, msg_cmd = ''ping'', msg_params = JUndefined, msg_to = None,
         msg_result = JUndefined, msg_processed = False \<rparr> None))
     = trace (priv_onOpenWebsocket example_client JNull) @
       [WsSend \<lparr> msg_id = Some 1, msg_cmd = ''response'', msg_params = JUndefined,
                 msg_to = Some 7, msg_result = JStr ''pong'', msg_processed = False \<rparr>]
   \<and> waitingMessages (state_after (priv_onRequest example_client
       \<lparr> msg_id = Some 7, msg_cmd = ''ping'', msg_params = JUndefined, msg_to = None,
         msg_result = JUndefined, msg_processed = False \<rparr> (Some (Error ''boom''))))
     = [\<lparr> msg_id = Some 1, msg_cmd = ''response'', msg_params = JUndefined,
          msg_to = Some 7, msg_result = JStr ''pong'', msg_processed = False \<rparr>]
   \<and> sent_frames (trace (state_after (priv_onRequest (priv_onOpenWebsocket example_client JNull)
       \<lparr> msg_id = Some 7, msg_cmd = ''pong'', msg_params = JUndefined, msg_to = None,
         msg_result = JUndefined, msg_processed = False \<rparr> None)))
     = sent_frames (trace (priv_onOpenWebsocket example_client JNull))"
  using ping_answered_with_pong[of
      "\<lparr> msg_id = Some 7, msg_cmd = ''ping'', msg_params = JUndefined, msg_to = None,
         msg_result = JUndefined, msg_processed = False \<rparr>"
      "priv_onOpenWebsocket example_client JNull" None]
    ping_answered_with_pong[of
      "\<lparr> msg_id = Some 7, msg_cmd = ''ping'', msg_params = JUndefined, msg_to = None,
         msg_result = JUndefined, msg_processed = False \<rparr>" example_client "Some (Error ''boom'')"]
    ping_answered_with_pong[of
      "\<lparr> msg_id = Some 7, msg_cmd = ''pong'', msg_params = JUndefined, msg_to = None,
         msg_result = JUndefined, msg_processed = False \<rparr>"
      "priv_onOpenWebsocket example_client JNull" None]
    constructor_Inr[OF example_client_constructed]
  by (simp add: pong_def priv_send_fields(10))

subsection \<open>Reconnecting\<close>

text \<open>
  What the construction of another client does to \<^verbatim>\<open>this.show\<close> and \<^verbatim>\<open>this.reconnect\<close> of
  a client that refers to the shared object is what \<open>constructor\<close> does to the \<^verbatim>\<open>show\<close> and
  \<^verbatim>\<open>reconnect\<close> groups of the shared object.
\<close>

lemma other_client_merges_shared:
  assumes "reconnect s = opt_reconnect shared" and "show' s = opt_show shared"
  shows "reconnect (step s (OtherClient site_arg options_in)) =
           opt_reconnect (fst (constructor shared site_arg options_in))"
    and "show' (step s (OtherClient site_arg options_in)) =
           opt_show (fst (constructor shared site_arg options_in))"
  using assms by (simp_all add: constructor_def Let_def recursiveAssign_def)









lemma capped_client_constructed:
  "constructor documented_defaults (JStr ''1HeLLo'') (Some capped_options) =
     (recursiveAssign documented_defaults capped_options, Inr capped_client)"
  by (simp add: capped_client_def constructor_def Let_def)

lemma capped_client_attempts: "reconnect_attempts (reconnect capped_client) = 1"
  using constructor_Inr[OF capped_client_constructed]
  by (simp add: recursiveAssign_def capped_options_def assign_reconnect_def assign_def)

lemma reconnect_round:
  assumes "reconnect_attempts (reconnect s) = 1" "nextAttemptId s = 1"
  shows "timers (run s [WsClose ev, TimerFired]) = timers s
      \<and> timeouts_set (trace (run s [WsClose ev, TimerFired])) = Suc (timeouts_set (trace s))
      \<and> sockets_created (trace (run s [WsClose ev, TimerFired])) = Suc (sockets_created (trace s))"
    and "reconnect (run s [WsClose ev, TimerFired]) = reconnect s"
    and "nextAttemptId (run s [WsClose ev, TimerFired]) = nextAttemptId s"
proof -
  have close: "timers (priv_onCloseWebsocket s ev) = Suc (timers s)
      \<and> timeouts_set (trace (priv_onCloseWebsocket s ev)) = Suc (timeouts_set (trace s))"
    using assms by (simp add: priv_onCloseWebsocket_def Let_def trace_append)
  then show "timers (run s [WsClose ev, TimerFired]) = timers s
      \<and> timeouts_set (trace (run s [WsClose ev, TimerFired])) = Suc (timeouts_set (trace s))
      \<and> sockets_created (trace (run s [WsClose ev, TimerFired])) = Suc (sockets_created (trace s))"
    by simp
  show "reconnect (run s [WsClose ev, TimerFired]) = reconnect s"
    by (simp add: step_policy)
  show "nextAttemptId (run s [WsClose ev, TimerFired]) = nextAttemptId s"
    by (simp only: run_fields)
qed

text \<open>
  C2. The comparison of line 244 reads \<^verbatim>\<open>nextAttemptId\<close>, but no statement of the class
  ever writes it after the constructor has set it to 1: no call and no event changes it,
  and it is 1 in every run of every client the constructor returns. The close handler sets
  a timer unless \<^verbatim>\<open>attempts\<close> is 0, or is not -1 and below \<^verbatim>\<open>nextAttemptId\<close>; so a limit of
  \<open>N > 0\<close> attempts never stops the reconnecting. On a client constructed with
  \<^verbatim>\<open>{reconnect: {attempts: 1}}\<close>, three closures of the socket set three timers, and the
  three timers create three sockets.
\<close>

theorem attempt_counter_never_advances:
  "nextAttemptId (run s es) = nextAttemptId s
   \<and> (case snd (constructor shared site_arg opts) of
         Inl e \<Rightarrow> True | Inr s0 \<Rightarrow> nextAttemptId (run s0 es) = 1)
   \<and> timeouts_set (trace (priv_onCloseWebsocket s ev)) =
        (if reconnect_attempts (reconnect s) = 0
            \<or> (reconnect_attempts (reconnect s) \<noteq> - 1
                \<and> nextAttemptId s > reconnect_attempts (reconnect s))
         then timeouts_set (trace s) else Suc (timeouts_set (trace s)))
   \<and> reconnect_attempts (reconnect capped_client) = 1
   \<and> nextAttemptId capped_client = 1
   \<and> timeouts_set (trace (run capped_client
        [WsClose JNull, TimerFired, WsClose JNull, TimerFired, WsClose JNull, TimerFired])) = 3
   \<and> sockets_created (trace (run capped_client
        [WsClose JNull, TimerFired, WsClose JNull, TimerFired, WsClose JNull, TimerFired])) = 3"
proof -
  note c = constructor_Inr[OF capped_client_constructed]
  note a = capped_client_attempts
  let ?r1 = "run capped_client [WsClose JNull, TimerFired]"
  let ?r2 = "run ?r1 [WsClose JNull, TimerFired]"
  have n: "nextAttemptId capped_client = 1" "timeouts_set (trace capped_client) = 0"
    "sockets_created (trace capped_client) = 0"
    using c by simp_all
  have r1: "reconnect_attempts (reconnect ?r1) = 1" "nextAttemptId ?r1 = 1"
    using a n by (simp_all only: reconnect_round(2,3)[OF a n(1)])
  have r2: "reconnect_attempts (reconnect ?r2) = 1" "nextAttemptId ?r2 = 1"
    using r1 by (simp_all only: reconnect_round(2,3)[OF r1])
  note x1 = reconnect_round(1)[OF a n(1), of JNull]
  note x2 = reconnect_round(1)[OF r1, of JNull]
  note x3 = reconnect_round(1)[OF r2, of JNull]
  have split: "run capped_client
        [WsClose JNull, TimerFired, WsClose JNull, TimerFired, WsClose JNull, TimerFired] =
      run ?r2 [WsClose JNull, TimerFired]"
    by (simp only: run_Cons run_Nil)
  have "timeouts_set (trace (run ?r2 [WsClose JNull, TimerFired])) = 3"
    "sockets_created (trace (run ?r2 [WsClose JNull, TimerFired])) = 3"
    using x1 x2 x3 n by (simp_all only: numeral_3_eq_3)
  moreover have "case snd (constructor shared site_arg opts) of
         Inl e \<Rightarrow> True | Inr s0 \<Rightarrow> nextAttemptId (run s0 es) = 1"
    by (simp add: constructor_def Let_def run_fields priv_connect_def priv_getWrapperKey_def)
  moreover have "timeouts_set (trace (priv_onCloseWebsocket s ev)) =
        (if reconnect_attempts (reconnect s) = 0
            \<or> (reconnect_attempts (reconnect s) \<noteq> - 1
                \<and> nextAttemptId s > reconnect_attempts (reconnect s))
         then timeouts_set (trace s) else Suc (timeouts_set (trace s)))"
    by (simp add: priv_onCloseWebsocket_def Let_def trace_append)
  ultimately show ?thesis
    using a n(1) by (simp only: split run_fields simp_thms)
qed

subsection \<open>The proxy\<close>

text \<open>
  C8. For every command name, the function the proxy returns, called without arguments,
  is \<^verbatim>\<open>cmdp\<close> with the empty object as parameters; called with one argument that is an object and not
  \<^verbatim>\<open>null\<close>, it is \<^verbatim>\<open>cmdp\<close> with that object as parameters; called with two or more
  arguments, it is \<^verbatim>\<open>cmdp\<close> with the array of the arguments as parameters. In each case
  the result is that of \<^verbatim>\<open>cmdp\<close>: a new promise, whose callback goes through the send
  path with the message that carries the command name and these parameters (each of the
  three parameter values is an object).
\<close>

theorem proxy_shapes_arguments:
  "proxy s name [] = cmdp s name (JObj [])
   \<and> (is_object a \<longrightarrow> proxy s name [a] = cmdp s name a)
   \<and> (2 \<le> length args \<longrightarrow> proxy s name args = cmdp s name (JArr args))
   \<and> (is_object p \<longrightarrow>
        cmdp s name p =
          (priv_send (s\<lparr> promises := promises s @ [Pending] \<rparr>)
             \<lparr> msg_id = None, msg_cmd = name, msg_params = p, msg_to = None,
               msg_result = JUndefined, msg_processed = False \<rparr>
             (Some (PromiseCallback (length (promises s)))),
           length (promises s)))"
proof -
  have 0: "proxy s name [] = cmdp s name (JObj [])"
    by (simp add: proxy_def cmdp_def default_params_def)
  have 1: "proxy s name [a] = cmdp s name a" if "is_object a"
    using that by (simp add: proxy_def)
  have 2: "proxy s name args = cmdp s name (JArr args)" if "2 \<le> length args"
    using that by (auto simp: proxy_def)
  have d: "default_params p = p" if "is_object p"
    using that by (auto simp: default_params_def)
  have 3: "cmdp s name p =
          (priv_send (s\<lparr> promises := promises s @ [Pending] \<rparr>)
             \<lparr> msg_id = None, msg_cmd = name, msg_params = p, msg_to = None,
               msg_result = JUndefined, msg_processed = False \<rparr>
             (Some (PromiseCallback (length (promises s)))),
           length (promises s))" if "is_object p"
    using d[OF that] by (simp add: cmdp_def cmd_def Let_def default_params_def)
  from 0 1 2 3 show ?thesis by blast
qed

theorem proxy_shapes_arguments_witness:
  "proxy example_client ''siteInfo'' [] = cmdp example_client ''siteInfo'' (JObj [])
   \<and> proxy example_client ''fileGet'' [JObj [(''inner_path'', JStr ''index.html'')]]
       = cmdp example_client ''fileGet'' (JObj [(''inner_path'', JStr ''index.html'')])
   \<and> proxy example_client ''fileGet'' [JStr ''index.html'', JBool True]
       = cmdp example_client ''fileGet'' (JArr [JStr ''index.html'', JBool True])
   \<and> waitingMessages (fst (proxy example_client ''fileGet'' [JStr ''index.html'', JBool True]))
       = [\<lparr> msg_id = Some 1, msg_cmd = ''fileGet'',
            msg_params = JArr [JStr ''index.html'', JBool True], msg_to = None,
            msg_result = JUndefined, msg_processed = False \<rparr>]
   \<and> waitingCallbacks (fst (proxy example_client ''fileGet'' [JStr ''index.html'', JBool True])) 1
       = Some (PromiseCallback 0)
   \<and> snd (proxy example_client ''fileGet'' [JStr ''index.html'', JBool True]) = 0"
proof -
  note c = constructor_Inr[OF example_client_constructed]
  note t1 = proxy_shapes_arguments[of example_client "''fileGet''"
      "JObj [(''inner_path'', JStr ''index.html'')]" "[JStr ''index.html'', JBool True]"
      "JArr [JStr ''index.html'', JBool True]"]
  note t0 = proxy_shapes_arguments[of example_client "''siteInfo''"]
  from t1 have a: "proxy example_client ''fileGet'' [JObj [(''inner_path'', JStr ''index.html'')]]
       = cmdp example_client ''fileGet'' (JObj [(''inner_path'', JStr ''index.html'')])"
    and b: "proxy example_client ''fileGet'' [JStr ''index.html'', JBool True]
       = cmdp example_client ''fileGet'' (JArr [JStr ''index.html'', JBool True])"
    and d: "cmdp example_client ''fileGet'' (JArr [JStr ''index.html'', JBool True]) =
          (priv_send (example_client\<lparr> promises := promises example_client @ [Pending] \<rparr>)
             \<lparr> msg_id = None, msg_cmd = ''fileGet'',
               msg_params = JArr [JStr ''index.html'', JBool True], msg_to = None,
               msg_result = JUndefined, msg_processed = False \<rparr>
             (Some (PromiseCallback (length (promises example_client)))),
           length (promises example_client))"
    by simp_all
  from t0 have z: "proxy example_client ''siteInfo'' [] = cmdp example_client ''siteInfo'' (JObj [])"
    by simp
  show ?thesis
    unfolding a b d z using c by simp
qed

subsection \<open>The constructor\<close>

lemma assign_Some [simp]: "assign old (Some v) = v"
  by (simp add: assign_def)

lemma assign_None [simp]: "assign old None = old"
  by (simp add: assign_def)

lemma recursiveAssign_empty [simp]: "recursiveAssign shared empty_options = shared"
  by (simp add: recursiveAssign_def empty_options_def assign_multiuser_def assign_instance_def
      assign_show_def assign_reconnect_def)

lemma constructor_shared:
  "fst (constructor shared site_arg opts) =
     recursiveAssign shared (case opts of None \<Rightarrow> empty_options | Some a \<Rightarrow> a)"
  by (simp add: constructor_def Let_def)

lemma constructor_config:
  assumes "constructor shared site_arg opts = (shared', Inr c)"
  shows "masterAddress c = multiuser_masterAddress (opt_multiuser shared')"
    and "masterSeed c = multiuser_masterSeed (opt_multiuser shared')"
    and "show' c = opt_show shared'"
    and "reconnect c = opt_reconnect shared'"
    and "host c = instance_host (opt_instance shared')"
    and "port c = instance_port (opt_instance shared')"
    and "secure c = instance_secure (opt_instance shared')"
    and "site c = site_arg"
  using assms
  by (auto simp: constructor_def Let_def priv_connect_def priv_getWrapperKey_def emit_def
      split: if_splits)

text \<open>
  C9. The constructor merges its options into the shared object
  \<^verbatim>\<open>ZeroFrame.constructorOptions\<close> itself: after \<^verbatim>\<open>new ZeroFrame(site, options)\<close>, whether
  it returned or threw, the shared object holds the merged options. A client constructed
  next with empty (or omitted) options leaves the shared object as it found it and takes
  its whole configuration from it: it gets every property the first call overrode, with
  the overriding value, and the same configuration as the first client.
\<close>

theorem constructor_overwrites_shared_defaults:
  assumes "constructor shared site_a (Some opts_a) = (shared_a, res_a)"
    and "opts_b = None \<or> opts_b = Some empty_options"
    and "constructor shared_a site_b opts_b = (shared_b, Inr client_b)"
  shows "shared_a = recursiveAssign shared opts_a \<and> shared_b = shared_a
     \<and> masterAddress client_b = multiuser_masterAddress (opt_multiuser shared_a)
     \<and> masterSeed client_b = multiuser_masterSeed (opt_multiuser shared_a)
     \<and> show' client_b = opt_show shared_a
     \<and> reconnect client_b = opt_reconnect shared_a
     \<and> host client_b = instance_host (opt_instance shared_a)
     \<and> port client_b = instance_port (opt_instance shared_a)
     \<and> secure client_b = instance_secure (opt_instance shared_a)
     \<and> (res_a = Inr client_a \<longrightarrow>
          masterAddress client_b = masterAddress client_a \<and> masterSeed client_b = masterSeed client_a
          \<and> show' client_b = show' client_a \<and> reconnect client_b = reconnect client_a
          \<and> host client_b = host client_a \<and> port client_b = port client_a \<and> secure client_b = secure client_a)
     \<and> (arg_multiuser opts_a = Some mu \<and> arg_masterAddress mu = Some v_ma \<longrightarrow> masterAddress client_b = v_ma)
     \<and> (arg_multiuser opts_a = Some mu \<and> arg_masterSeed mu = Some v_ms \<longrightarrow> masterSeed client_b = v_ms)
     \<and> (arg_instance opts_a = Some ins \<and> arg_host ins = Some v_h \<longrightarrow> host client_b = v_h)
     \<and> (arg_instance opts_a = Some ins \<and> arg_port ins = Some v_p \<longrightarrow> port client_b = v_p)
     \<and> (arg_instance opts_a = Some ins \<and> arg_secure ins = Some v_s \<longrightarrow> secure client_b = v_s)
     \<and> (arg_show opts_a = Some sh \<and> arg_log sh = Some v_l \<longrightarrow> show_log (show' client_b) = v_l)
     \<and> (arg_show opts_a = Some sh \<and> arg_error sh = Some v_e \<longrightarrow> show_error (show' client_b) = v_e)
     \<and> (arg_reconnect opts_a = Some re \<and> arg_attempts re = Some v_a \<longrightarrow>
          reconnect_attempts (reconnect client_b) = v_a)
     \<and> (arg_reconnect opts_a = Some re \<and> arg_delay re = Some v_d \<longrightarrow>
          reconnect_delay (reconnect client_b) = v_d)"
proof -
  have s1: "shared_a = recursiveAssign shared opts_a"
    using constructor_shared[of shared site_a "Some opts_a"] assms(1) by simp
  have s2: "shared_b = shared_a"
    using constructor_shared[of shared_a site_b opts_b] assms(2,3) by auto
  note client_b = constructor_config[OF assms(3), unfolded s2]
  have same: "masterAddress client_b = masterAddress client_a \<and> masterSeed client_b = masterSeed client_a
          \<and> show' client_b = show' client_a \<and> reconnect client_b = reconnect client_a
          \<and> host client_b = host client_a \<and> port client_b = port client_a \<and> secure client_b = secure client_a" if "res_a = Inr client_a"
    using constructor_config[OF assms(1)[unfolded that]] client_b by simp
  have leaves:
    "arg_multiuser opts_a = Some mu \<and> arg_masterAddress mu = Some v_ma \<longrightarrow> masterAddress client_b = v_ma"
    "arg_multiuser opts_a = Some mu \<and> arg_masterSeed mu = Some v_ms \<longrightarrow> masterSeed client_b = v_ms"
    "arg_instance opts_a = Some ins \<and> arg_host ins = Some v_h \<longrightarrow> host client_b = v_h"
    "arg_instance opts_a = Some ins \<and> arg_port ins = Some v_p \<longrightarrow> port client_b = v_p"
    "arg_instance opts_a = Some ins \<and> arg_secure ins = Some v_s \<longrightarrow> secure client_b = v_s"
    "arg_show opts_a = Some sh \<and> arg_log sh = Some v_l \<longrightarrow> show_log (show' client_b) = v_l"
    "arg_show opts_a = Some sh \<and> arg_error sh = Some v_e \<longrightarrow> show_error (show' client_b) = v_e"
    "arg_reconnect opts_a = Some re \<and> arg_attempts re = Some v_a \<longrightarrow> reconnect_attempts (reconnect client_b) = v_a"
    "arg_reconnect opts_a = Some re \<and> arg_delay re = Some v_d \<longrightarrow> reconnect_delay (reconnect client_b) = v_d"
    unfolding client_b s1
    by (simp_all add: recursiveAssign_def assign_multiuser_def assign_instance_def
        assign_show_def assign_reconnect_def)
  from s1 s2 client_b same leaves show ?thesis by blast
qed


theorem constructor_overwrites_shared_defaults_witness:
  "constructor documented_defaults (JStr ''1HeLLo'') (Some port_options) =
     (shared_after_first, snd (constructor documented_defaults (JStr ''1HeLLo'') (Some port_options)))
   \<and> constructor shared_after_first (JStr ''1Other'') None = (shared_after_first, Inr second_client)
   \<and> instance_port (opt_instance documented_defaults) = 43110
   \<and> instance_port (opt_instance shared_after_first) = 1234
   \<and> port second_client = 1234"
proof -
  have 1: "constructor documented_defaults (JStr ''1HeLLo'') (Some port_options) =
     (shared_after_first, snd (constructor documented_defaults (JStr ''1HeLLo'') (Some port_options)))"
    by (simp add: shared_after_first_def)
  have 2: "constructor shared_after_first (JStr ''1Other'') None = (shared_after_first, Inr second_client)"
    by (simp add: second_client_def constructor_def Let_def)
  have p: "arg_instance port_options = Some \<lparr> arg_host = None, arg_port = Some 1234, arg_secure = None \<rparr>
      \<and> arg_port \<lparr> arg_host = None, arg_port = Some 1234, arg_secure = None \<rparr> = Some 1234"
    by (simp add: port_options_def)
  note t = constructor_overwrites_shared_defaults[OF 1 disjI1[OF refl] 2,
      where client_a = second_client
        and mu = "\<lparr> arg_masterAddress = None, arg_masterSeed = None \<rparr>"
        and v_ma = None and v_ms = None
        and ins = "\<lparr> arg_host = None, arg_port = Some 1234, arg_secure = None \<rparr>"
        and v_h = "[]" and v_p = 1234 and v_s = False
        and sh = "\<lparr> arg_log = None, arg_error = None \<rparr>" and v_l = False and v_e = False
        and re = "\<lparr> arg_attempts = None, arg_delay = None \<rparr>" and v_a = 0 and v_d = 0]
  from t p have "port second_client = 1234"
    and "port second_client = instance_port (opt_instance shared_after_first)"
    by simp_all
  with 1 2 show ?thesis
    by (simp add: documented_defaults_def)
qed

text \<open>
  C10. For a falsy site argument (\<^verbatim>\<open>undefined\<close>, \<^verbatim>\<open>null\<close> and the empty string are
  falsy) the constructor throws \<^verbatim>\<open>Error('Site address is not specified')\<close>. By then it has
  merged the options into the shared object and done nothing else: no client exists, so
  no field is set and neither the HTTP request of \<^verbatim>\<open>_connect\<close> nor a socket is made. (For
  a truthy site the new client has issued the HTTP request.)
\<close>

theorem constructor_rejects_falsy_site:
  "(\<not> truthy site_arg \<longrightarrow>
      constructor shared site_arg opts =
        (recursiveAssign shared (case opts of None \<Rightarrow> empty_options | Some a \<Rightarrow> a),
         Inl (Error ''Site address is not specified'')))
   \<and> \<not> truthy JUndefined \<and> \<not> truthy JNull \<and> \<not> truthy (JStr [])
   \<and> (truthy site_arg \<longrightarrow>
        (\<exists>c. snd (constructor shared site_arg opts) = Inr c \<and> trace c = [Fetch (url c)]))"
  by (simp add: constructor_def Let_def priv_connect_def priv_getWrapperKey_def emit_def)

theorem constructor_rejects_falsy_site_witness:
  "constructor documented_defaults JUndefined None =
     (documented_defaults, Inl (Error ''Site address is not specified''))
   \<and> constructor documented_defaults JNull (Some empty_options) =
     (documented_defaults, Inl (Error ''Site address is not specified''))
   \<and> constructor documented_defaults (JStr []) (Some port_options) =
     (recursiveAssign documented_defaults port_options,
      Inl (Error ''Site address is not specified''))"
  using constructor_rejects_falsy_site[of JUndefined documented_defaults None]
    constructor_rejects_falsy_site[of JNull documented_defaults "Some empty_options"]
    constructor_rejects_falsy_site[of "JStr []" documented_defaults "Some port_options"]
  by simp

subsection \<open>Promises\<close>

lemma settle_nth:
  "promises (settle q v s) ! p =
     (if q = p \<and> p < length (promises s) \<and> promises s ! p = Pending then v else promises s ! p)"
  by (auto simp: settle_def nth_list_update)

lemma call_callback_nth:
  "promises (state_after (call_callback cb r t s)) ! p =
     (case cb of
        UserCallback u \<Rightarrow> promises s ! p
      | PromiseCallback q \<Rightarrow>
          if q = p \<and> p < length (promises s) \<and> promises s ! p = Pending
          then (if truthy r \<and> truthy (js_get r ''error'') then Rejected (js_get r ''error'')
                else Resolved r)
          else promises s ! p)"
  by (cases cb; cases t) (simp_all add: settle_nth)

lemma priv_onRequest_promises:
  "promises (state_after (priv_onRequest s m t)) ! p =
     (if msg_cmd m = ''response'' then
        (case msg_to m of None \<Rightarrow> promises s ! p
         | Some k \<Rightarrow> (case waitingCallbacks s k of None \<Rightarrow> promises s ! p
             | Some cb \<Rightarrow> promises (state_after (call_callback cb (msg_result m) t s)) ! p))
      else promises s ! p)"
proof (cases m rule: priv_onRequest_cases)
  case 1
  have "promises (state_after (priv_onRequest s m t)) ! p =
      promises (state_after (call_callback cb (msg_result m) t s)) ! p"
    if kc: "msg_to m = Some k" "waitingCallbacks s k = Some cb" for k cb
  proof (cases "throws cb t")
    case True
    then obtain u where "cb = UserCallback u" by (cases cb; cases t) simp_all
    with True show ?thesis
      by (simp add: response_matched(1)[OF 1 kc] split: option.splits)
  next
    case False
    then show ?thesis
      by (simp add: response_matched(1)[OF 1 kc] call_callback_nth split: callback.splits)
  qed
  with 1 show ?thesis
    by (simp add: response_unmatched split: option.splits)
next
  case 2
  then show ?thesis by (simp add: priv_onRequest_ping)
next
  case 3
  then show ?thesis by (simp add: priv_onRequest_other)
qed

lemma step_length_promises: "length (promises s) \<le> length (promises (step s e))"
  by (cases e) (simp_all add: proxy_eq priv_connect_resume_def init_def split: option.splits)

lemma settled_step:
  assumes "p < length (promises s)" "promises s ! p \<noteq> Pending"
  shows "promises (step s e) ! p = promises s ! p"
proof (cases e)
  case (WsMessage m t)
  then show ?thesis using assms
    by (simp add: priv_onRequest_promises call_callback_nth split: option.splits callback.splits)
next
  case (FetchDone c)
  then show ?thesis by (cases c) (simp_all add: priv_connect_resume_def init_def)
qed (use assms in \<open>simp_all add: proxy_eq nth_append\<close>)

lemma settled_run:
  "p < length (promises s) \<Longrightarrow> promises s ! p \<noteq> Pending \<Longrightarrow>
     promises (run s es) ! p = promises s ! p"
proof (induction es arbitrary: s)
  case Nil
  then show ?case by simp
next
  case (Cons e es)
  have "p < length (promises (step s e))"
    using Cons.prems(1) step_length_promises[of s e] by simp
  moreover have "promises (step s e) ! p = promises s ! p"
    by (rule settled_step[OF Cons.prems])
  ultimately show ?case using Cons.IH[of "step s e"] Cons.prems(2) by simp
qed


lemma table_ok_mono:
  assumes "table_ok s" "waitingCallbacks s' = waitingCallbacks s"
    "nextMessageId s \<le> nextMessageId s'" "length (promises s) \<le> length (promises s')"
  shows "table_ok s'"
  unfolding table_ok_def assms(2)
proof (intro allI impI)
  fix k cb
  assume w: "waitingCallbacks s k = Some cb"
  from assms(1) w have k: "k < nextMessageId s"
    and q: "\<And>q. cb = PromiseCallback q \<Longrightarrow> q < length (promises s)
          \<and> (\<forall>k'. waitingCallbacks s k' = Some (PromiseCallback q) \<longrightarrow> k' = k)"
    unfolding table_ok_def by blast+
  show "k < nextMessageId s' \<and>
       (\<forall>q. cb = PromiseCallback q \<longrightarrow>
            q < length (promises s') \<and>
            (\<forall>k'. waitingCallbacks s k' = Some (PromiseCallback q) \<longrightarrow> k' = k))"
    using k q assms(3,4) by fastforce
qed

lemma table_ok_delete:
  assumes "table_ok s" "waitingCallbacks s' = (waitingCallbacks s)(k0 := None)"
    "nextMessageId s \<le> nextMessageId s'" "length (promises s) \<le> length (promises s')"
  shows "table_ok s'"
  unfolding table_ok_def assms(2)
proof (intro allI impI)
  fix k cb
  assume w': "((waitingCallbacks s)(k0 := None)) k = Some cb"
  then have w: "waitingCallbacks s k = Some cb" and ne: "k \<noteq> k0"
    by (auto split: if_splits)
  from assms(1) w have k: "k < nextMessageId s"
    and q: "\<And>q. cb = PromiseCallback q \<Longrightarrow> q < length (promises s)
          \<and> (\<forall>k'. waitingCallbacks s k' = Some (PromiseCallback q) \<longrightarrow> k' = k)"
    unfolding table_ok_def by blast+
  have "k' = k" if "cb = PromiseCallback q"
      "((waitingCallbacks s)(k0 := None)) k' = Some (PromiseCallback q)" for q k'
  proof -
    from that(2) have "waitingCallbacks s k' = Some (PromiseCallback q)"
      by (auto split: if_splits)
    with q[OF that(1)] show ?thesis by blast
  qed
  with k q assms(3,4) show "k < nextMessageId s' \<and>
       (\<forall>q. cb = PromiseCallback q \<longrightarrow>
            q < length (promises s') \<and>
            (\<forall>k'. ((waitingCallbacks s)(k0 := None)) k' = Some (PromiseCallback q) \<longrightarrow> k' = k))"
    by fastforce
qed

lemma table_ok_insert:
  assumes "table_ok s" "waitingCallbacks s' = (waitingCallbacks s)(nextMessageId s \<mapsto> cb0)"
    "nextMessageId s < nextMessageId s'" "length (promises s) \<le> length (promises s')"
    "\<And>q. cb0 = PromiseCallback q \<Longrightarrow> length (promises s) \<le> q \<and> q < length (promises s')"
  shows "table_ok s'"
  unfolding table_ok_def assms(2)
proof (intro allI impI)
  fix k cb
  let ?w = "(waitingCallbacks s)(nextMessageId s \<mapsto> cb0)"
  assume w': "?w k = Some cb"
  have old: "k1 < nextMessageId s \<and> (\<forall>q. cb1 = PromiseCallback q \<longrightarrow> q < length (promises s)
          \<and> (\<forall>k'. waitingCallbacks s k' = Some (PromiseCallback q) \<longrightarrow> k' = k1))"
    if "waitingCallbacks s k1 = Some cb1" for k1 cb1
    using assms(1) that unfolding table_ok_def by blast
  show "k < nextMessageId s' \<and>
       (\<forall>q. cb = PromiseCallback q \<longrightarrow>
            q < length (promises s') \<and> (\<forall>k'. ?w k' = Some (PromiseCallback q) \<longrightarrow> k' = k))"
  proof (cases "k = nextMessageId s")
    case True
    with w' have cb: "cb = cb0" by simp
    have "k' = k" if "cb0 = PromiseCallback q" "?w k' = Some (PromiseCallback q)" for q k'
    proof (rule ccontr)
      assume "k' \<noteq> k"
      with that(2) True have "waitingCallbacks s k' = Some (PromiseCallback q)" by simp
      from old[OF this] have "q < length (promises s)" by blast
      with assms(5)[OF that(1)] show False by simp
    qed
    with True cb assms(3) assms(5) show ?thesis by blast
  next
    case False
    with w' have w: "waitingCallbacks s k = Some cb" by simp
    note o = old[OF w]
    have "k' = k" if "cb = PromiseCallback q" "?w k' = Some (PromiseCallback q)" for q k'
    proof (cases "k' = nextMessageId s")
      case True
      with that(2) have "cb0 = PromiseCallback q" by simp
      from assms(5)[OF this] o that(1) show ?thesis by fastforce
    next
      case False
      with that(2) have "waitingCallbacks s k' = Some (PromiseCallback q)" by simp
      with o that(1) show ?thesis by blast
    qed
    moreover have "k < nextMessageId s'" using o assms(3) by simp
    moreover have "q < length (promises s')" if "cb = PromiseCallback q" for q
      using o that assms(4) by fastforce
    ultimately show ?thesis by blast
  qed
qed


lemma table_ok_send_plain:
  assumes "table_ok s" "lacks_id m"
  shows "table_ok (priv_send s m None)"
  by (rule table_ok_mono[OF assms(1)]) (simp_all add: assms(2))

lemma table_ok_cmd:
  assumes "table_ok s"
  shows "table_ok (cmd s c params (map_option UserCallback cb))"
proof (cases cb)
  case None
  then show ?thesis using assms by (simp add: cmd_def table_ok_send_plain)
next
  case (Some t)
  show ?thesis
    by (rule table_ok_insert[OF assms, where ?cb0.0 = "UserCallback t"])
      (simp_all add: Some cmd_def)
qed

lemma cmdp_table:
  "waitingCallbacks (fst (cmdp s c params)) =
      (waitingCallbacks s)(nextMessageId s \<mapsto> PromiseCallback (length (promises s)))"
  "nextMessageId (fst (cmdp s c params)) = nextMessageId s + 1"
  by (simp_all add: cmdp_def Let_def cmd_def)

lemma table_ok_cmdp:
  assumes "table_ok s"
  shows "table_ok (fst (cmdp s c params))"
  by (rule table_ok_insert[OF assms, where ?cb0.0 = "PromiseCallback (length (promises s))"])
    (simp_all add: cmdp_table)

lemma table_ok_onRequest:
  assumes "table_ok s"
  shows "table_ok (state_after (priv_onRequest s m t))"
proof (cases m rule: priv_onRequest_cases)
  case 1
  show ?thesis
  proof (cases "\<exists>k cb. msg_to m = Some k \<and> waitingCallbacks s k = Some cb")
    case True
    then obtain k cb where kc: "msg_to m = Some k" "waitingCallbacks s k = Some cb" by blast
    note r = response_matched[OF 1 kc, of t]
    show ?thesis
    proof (cases "throws cb t")
      case True
      show ?thesis
        by (rule table_ok_mono[OF assms]) (simp_all add: r(3,4) True)
    next
      case False
      show ?thesis
        by (rule table_ok_delete[OF assms, where ?k0.0 = k]) (simp_all add: r(3,4) False)
    qed
  next
    case False
    then have "priv_onRequest s m t = Returned s"
      by (intro response_unmatched[OF 1]) (cases "msg_to m"; auto)
    with assms show ?thesis by simp
  qed
next
  case 2
  with assms show ?thesis
    by (simp add: priv_onRequest_ping response_def table_ok_send_plain)
next
  case 3
  show ?thesis
    by (rule table_ok_mono[OF assms]) (simp_all add: priv_onRequest_other 3)
qed

lemma table_ok_step: "table_ok s \<Longrightarrow> table_ok (step s e)"
proof (cases e)
  case (FetchDone c)
  assume "table_ok s"
  then show ?thesis using FetchDone
    by (cases c) (simp_all add: priv_connect_resume_def init_def table_ok_mono[of s])
next
  case TimerFired
  assume "table_ok s"
  then show ?thesis using TimerFired by (simp add: table_ok_mono[of s])
next
  case (WsOpen ev)
  assume "table_ok s"
  then show ?thesis using WsOpen by (simp add: table_ok_mono[of s])
next
  case (WsClose ev)
  assume "table_ok s"
  then show ?thesis using WsClose by (simp add: table_ok_mono[of s])
next
  case (WsError ev)
  assume "table_ok s"
  then show ?thesis using WsError by (simp add: table_ok_mono[of s])
next
  case (OtherClient site_arg options_in)
  assume "table_ok s"
  then show ?thesis using OtherClient by (simp add: table_ok_mono[of s])
qed (simp_all add: table_ok_cmd table_ok_cmdp proxy_eq response_def table_ok_send_plain
    table_ok_onRequest)

lemma table_ok_run: "table_ok s \<Longrightarrow> table_ok (run s es)"
  by (induction es arbitrary: s) (simp_all add: table_ok_step)

lemma table_ok_constructor:
  "constructor shared site_arg opts = (shared', Inr s0) \<Longrightarrow> table_ok s0"
  by (drule constructor_Inr) (simp add: table_ok_def)


lemma tracked_send:
  assumes "table_ok s" "tracked k p s" "lacks_id m"
  shows "tracked k p (priv_send s m cb)"
proof -
  from assms(1,2) have "k < nextMessageId s"
    unfolding table_ok_def tracked_def by blast
  then show ?thesis using assms(2,3)
    by (cases cb) (simp_all add: tracked_def)
qed

lemma tracked_cmdp:
  assumes "table_ok s" "tracked k p s"
  shows "tracked k p (fst (cmdp s c params))"
proof -
  from assms(1,2) have "k < nextMessageId s"
    unfolding table_ok_def tracked_def by blast
  then show ?thesis using assms(2)
    by (simp add: tracked_def cmdp_table nth_append)
qed

lemma tracked_onRequest:
  assumes "table_ok s" "tracked k p s" "\<not> (msg_cmd m = ''response'' \<and> msg_to m = Some k)"
  shows "tracked k p (state_after (priv_onRequest s m t))"
proof (cases m rule: priv_onRequest_cases)
  case 1
  show ?thesis
  proof (cases "\<exists>k0 cb. msg_to m = Some k0 \<and> waitingCallbacks s k0 = Some cb")
    case True
    then obtain k0 cb where kc: "msg_to m = Some k0" "waitingCallbacks s k0 = Some cb" by blast
    from assms(3) 1 kc have ne: "k0 \<noteq> k" by simp
    note r = response_matched[OF 1 kc, of t]
    have cb: "cb \<noteq> PromiseCallback p"
    proof
      assume "cb = PromiseCallback p"
      with kc(2) assms(1,2) have "k0 = k"
        unfolding table_ok_def tracked_def by blast
      with ne show False by simp
    qed
    have "promises (state_after (priv_onRequest s m t)) ! p = promises s ! p"
      using 1 kc cb
      by (simp add: priv_onRequest_promises call_callback_nth split: callback.splits)
    with assms(2) ne show ?thesis
      by (simp add: tracked_def r(3))
  next
    case False
    then have "priv_onRequest s m t = Returned s"
      by (intro response_unmatched[OF 1]) (cases "msg_to m"; auto)
    with assms(2) show ?thesis by simp
  qed
next
  case 2
  with assms show ?thesis
    by (simp add: priv_onRequest_ping response_def tracked_send)
next
  case 3
  with assms(2) show ?thesis
    by (simp add: priv_onRequest_other tracked_def)
qed

lemma tracked_step:
  assumes "table_ok s" "tracked k p s" "\<not> answers k e"
  shows "tracked k p (step s e)"
proof (cases e)
  case (WsMessage m t)
  with assms show ?thesis by (simp add: tracked_onRequest)
next
  case (FetchDone c)
  with assms(2) show ?thesis
    by (cases c) (simp_all add: priv_connect_resume_def init_def tracked_def)
qed (use assms in \<open>simp_all add: cmd_def response_def tracked_send tracked_cmdp proxy_eq\<close>,
     simp_all add: tracked_def)

lemma tracked_run:
  "table_ok s \<Longrightarrow> tracked k p s \<Longrightarrow> list_all (\<lambda>e. \<not> answers k e) es \<Longrightarrow>
     tracked k p (run s es) \<and> table_ok (run s es)"
proof (induction es arbitrary: s)
  case Nil
  then show ?case by simp
next
  case (Cons e es)
  from Cons.prems(3) have e: "\<not> answers k e" and es: "list_all (\<lambda>e. \<not> answers k e) es"
    by simp_all
  from Cons.IH[OF table_ok_step[OF Cons.prems(1)] tracked_step[OF Cons.prems(1,2) e] es]
  show ?case by simp
qed

lemma tracked_after_cmdp:
  assumes "table_ok s"
  shows "tracked (nextMessageId s) (length (promises s)) (fst (cmdp s c params))"
  by (simp add: tracked_def cmdp_table)

lemma tracked_answer:
  assumes "tracked k p s" "msg_cmd m = ''response''" "msg_to m = Some k"
  shows "promises (state_after (priv_onRequest s m t)) ! p =
       (if truthy (msg_result m) \<and> truthy (js_get (msg_result m) ''error'')
        then Rejected (js_get (msg_result m) ''error'') else Resolved (msg_result m))"
    and "p < length (promises (state_after (priv_onRequest s m t)))"
    and "waitingCallbacks (state_after (priv_onRequest s m t)) k = None"
  using assms
  by (simp_all add: tracked_def priv_onRequest_promises settle_nth response_matched(3))


lemma handed_out_send:
  assumes "numbered s" "lacks_id m" "\<not> msg_processed m"
  shows "handed_out (priv_send s m cb) = handed_out s @ [m\<lparr> msg_id := Some (nextMessageId s) \<rparr>]"
proof (cases "websocketConnected s")
  case True
  with assms(1) have "filter (\<lambda>m. \<not> msg_processed m) (waitingMessages s) = []"
    by (simp add: numbered_def queue_done_def list_all_iff)
  with True assms(2) show ?thesis by (simp add: handed_out_def)
next
  case False
  with assms(2,3) show ?thesis by (simp add: handed_out_def)
qed

lemma handed_out_cmdp:
  assumes "numbered s"
  shows "handed_out (fst (cmdp s c params)) =
     handed_out s @ [\<lparr> msg_id = Some (nextMessageId s), msg_cmd = c,
       msg_params = default_params params, msg_to = None, msg_result = JUndefined,
       msg_processed = False \<rparr>]"
proof -
  let ?s' = "s\<lparr> promises := promises s @ [Pending] \<rparr>"
  have n: "numbered ?s'"
    using assms by (simp add: numbered_cong[of ?s' s])
  have h: "handed_out ?s' = handed_out s" by (simp add: handed_out_def)
  have d: "default_params (default_params params) = default_params params"
    by (simp add: default_params_def)
  show ?thesis
    unfolding cmdp_def Let_def fst_conv cmd_def
    by (subst handed_out_send[OF n]) (simp_all add: h d)
qed

text \<open>
  C5, as amended. A command sent with \<^verbatim>\<open>cmdp\<close> in a session gets the next identifier
  \<open>k\<close>, and the callback of the new promise waits under \<open>k\<close>. Whatever happens next, as
  long as no response frame for \<open>k\<close> arrives, the promise stays pending. When the response
  frame for \<open>k\<close> with result \<open>R\<close> arrives, the promise is rejected with \<open>R.error\<close> if \<open>R\<close> is
  truthy and \<open>R.error\<close> is truthy, and resolved with \<open>R\<close> otherwise. Nothing that happens
  later changes the promise again.
\<close>

theorem cmdp_promise_settled_by_response:
  assumes "constructor shared site_arg opts = (shared', Inr s0)"
    and "cmdp (run s0 es0) c params = (s1, p)"
    and "k = nextMessageId (run s0 es0)"
    and "list_all (\<lambda>e. \<not> answers k e) es"
    and "msg_cmd m = ''response''" and "msg_to m = Some k" and "msg_result m = R"
  shows "waitingCallbacks s1 k = Some (PromiseCallback p)
     \<and> handed_out s1 = handed_out (run s0 es0) @
          [\<lparr> msg_id = Some k, msg_cmd = c, msg_params = default_params params, msg_to = None,
             msg_result = JUndefined, msg_processed = False \<rparr>]
     \<and> promises (run s1 es) ! p = Pending
     \<and> promises (state_after (priv_onRequest (run s1 es) m t)) ! p =
         (if truthy R \<and> truthy (js_get R ''error'') then Rejected (js_get R ''error'')
          else Resolved R)
     \<and> promises (run (state_after (priv_onRequest (run s1 es) m t)) es') ! p =
         promises (state_after (priv_onRequest (run s1 es) m t)) ! p"
proof -
  let ?s = "run s0 es0"
  have t: "table_ok ?s" by (rule table_ok_run[OF table_ok_constructor[OF assms(1)]])
  have n: "numbered ?s" by (rule numbered_run[OF numbered_constructor[OF assms(1)]])
  from assms(2) have s1: "s1 = fst (cmdp ?s c params)" by simp
  from assms(2) have "snd (cmdp ?s c params) = p" by simp
  then have p: "p = length (promises ?s)" by simp
  have tr1: "tracked k p s1" unfolding s1 p assms(3) by (rule tracked_after_cmdp[OF t])
  have t1: "table_ok s1" unfolding s1 by (rule table_ok_cmdp[OF t])
  note tr = tracked_run[OF t1 tr1 assms(4)]
  note a = tracked_answer[OF conjunct1[OF tr] assms(5,6), of t]
  have ne: "promises (state_after (priv_onRequest (run s1 es) m t)) ! p \<noteq> Pending"
    unfolding a(1) by simp
  note st = settled_run[OF a(2) ne, of es']
  have h: "handed_out s1 = handed_out ?s @
          [\<lparr> msg_id = Some k, msg_cmd = c, msg_params = default_params params, msg_to = None,
             msg_result = JUndefined, msg_processed = False \<rparr>]"
    unfolding s1 assms(3) by (rule handed_out_cmdp[OF n])
  from tr1 tr a(1) st h show ?thesis
    by (simp add: tracked_def assms(7))
qed


theorem cmdp_promise_settled_by_response_witness:
  "cmdp (run example_client []) ''siteInfo'' JUndefined =
     (fst (cmdp example_client ''siteInfo'' JUndefined), 0)
   \<and> nextMessageId (run example_client []) = 1
   \<and> promises (run (fst (cmdp example_client ''siteInfo'' JUndefined))
        [WsOpen JNull, Cmd ''serverInfo'' JUndefined None,
         WsMessage (response_frame 2 (JStr ''other'')) None]) ! 0 = Pending
   \<and> promises (state_after (priv_onRequest
        (run (fst (cmdp example_client ''siteInfo'' JUndefined))
           [WsOpen JNull, Cmd ''serverInfo'' JUndefined None,
            WsMessage (response_frame 2 (JStr ''other'')) None])
        (response_frame 1 (JObj [(''error'', JStr ''denied'')])) None)) ! 0
       = Rejected (JStr ''denied'')
   \<and> promises (run (state_after (priv_onRequest
        (run (fst (cmdp example_client ''siteInfo'' JUndefined))
           [WsOpen JNull, Cmd ''serverInfo'' JUndefined None,
            WsMessage (response_frame 2 (JStr ''other'')) None])
        (response_frame 1 (JObj [(''error'', JStr ''denied'')])) None))
        [WsMessage (response_frame 1 (JStr ''late'')) None]) ! 0
       = Rejected (JStr ''denied'')"
proof -
  note c = constructor_Inr[OF example_client_constructed]
  have 1: "cmdp (run example_client []) ''siteInfo'' JUndefined =
     (fst (cmdp example_client ''siteInfo'' JUndefined), 0)"
    using c by (simp add: prod_eq_iff)
  have 2: "1 = nextMessageId (run example_client [])" using c by simp
  have 3: "list_all (\<lambda>e. \<not> answers 1 e)
       [WsOpen JNull, Cmd ''serverInfo'' JUndefined None,
        WsMessage (response_frame 2 (JStr ''other'')) None]"
    by (simp add: response_frame_def)
  have 4: "msg_cmd (response_frame 1 (JObj [(''error'', JStr ''denied'')])) = ''response''"
    "msg_to (response_frame 1 (JObj [(''error'', JStr ''denied'')])) = Some 1"
    "msg_result (response_frame 1 (JObj [(''error'', JStr ''denied'')])) =
       JObj [(''error'', JStr ''denied'')]"
    by (simp_all add: response_frame_def)
  note t = cmdp_promise_settled_by_response[OF example_client_constructed 1 2 3 4,
      of None "[WsMessage (response_frame 1 (JStr ''late'')) None]"]
  from t have "promises (run (fst (cmdp example_client ''siteInfo'' JUndefined))
        [WsOpen JNull, Cmd ''serverInfo'' JUndefined None,
         WsMessage (response_frame 2 (JStr ''other'')) None]) ! 0 = Pending"
    and "promises (state_after (priv_onRequest
        (run (fst (cmdp example_client ''siteInfo'' JUndefined))
           [WsOpen JNull, Cmd ''serverInfo'' JUndefined None,
            WsMessage (response_frame 2 (JStr ''other'')) None])
        (response_frame 1 (JObj [(''error'', JStr ''denied'')])) None)) ! 0
       = (if truthy (JObj [(''error'', JStr ''denied'')])
            \<and> truthy (js_get (JObj [(''error'', JStr ''denied'')]) ''error'')
          then Rejected (js_get (JObj [(''error'', JStr ''denied'')]) ''error'')
          else Resolved (JObj [(''error'', JStr ''denied'')]))"
    and "promises (run (state_after (priv_onRequest
        (run (fst (cmdp example_client ''siteInfo'' JUndefined))
           [WsOpen JNull, Cmd ''serverInfo'' JUndefined None,
            WsMessage (response_frame 2 (JStr ''other'')) None])
        (response_frame 1 (JObj [(''error'', JStr ''denied'')])) None))
        [WsMessage (response_frame 1 (JStr ''late'')) None]) ! 0
       = promises (state_after (priv_onRequest
        (run (fst (cmdp example_client ''siteInfo'' JUndefined))
           [WsOpen JNull, Cmd ''serverInfo'' JUndefined None,
            WsMessage (response_frame 2 (JStr ''other'')) None])
        (response_frame 1 (JObj [(''error'', JStr ''denied'')])) None)) ! 0"
    by blast+
  then show ?thesis
    using 1 2 by (simp del: run_Cons run_Nil)
qed

text \<open>
  C5, as stated, fails: the result \<^verbatim>\<open>{"error": ""}\<close> is truthy and carries an error field,
  yet the promise is resolved with the result, not rejected with its error field: the test
  of line 425 is the truthiness of \<^verbatim>\<open>response.error\<close>, not its presence.
\<close>

theorem cmdp_error_field_counterexample:
  "truthy (JObj [(''error'', JStr [])])
   \<and> has_field (JObj [(''error'', JStr [])]) ''error''
   \<and> js_get (JObj [(''error'', JStr [])]) ''error'' = JStr []
   \<and> nextMessageId example_client = 1
   \<and> snd (cmdp example_client ''siteInfo'' JUndefined) = 0
   \<and> waitingCallbacks (fst (cmdp example_client ''siteInfo'' JUndefined)) 1 = Some (PromiseCallback 0)
   \<and> promises (state_after (priv_onRequest (fst (cmdp example_client ''siteInfo'' JUndefined))
        (response_frame 1 (JObj [(''error'', JStr [])])) None)) ! 0
       = Resolved (JObj [(''error'', JStr [])])
   \<and> promises (state_after (priv_onRequest (fst (cmdp example_client ''siteInfo'' JUndefined))
        (response_frame 1 (JObj [(''error'', JStr [])])) None)) ! 0
       \<noteq> Rejected (JStr [])"
proof -
  note c = constructor_Inr[OF example_client_constructed]
  have w: "waitingCallbacks (fst (cmdp example_client ''siteInfo'' JUndefined)) 1 = Some (PromiseCallback 0)"
    using c by (simp add: cmdp_table)
  have "promises (state_after (priv_onRequest (fst (cmdp example_client ''siteInfo'' JUndefined))
        (response_frame 1 (JObj [(''error'', JStr [])])) None)) ! 0
       = Resolved (JObj [(''error'', JStr [])])"
    using w c by (simp add: priv_onRequest_promises response_frame_def settle_nth)
  with w c show ?thesis by simp
qed


end
